theory Spec2Isabelle
  imports Complex_Main "HOL-Library.Log_Nat"
begin

section \<open>Types (the type definitions that follow src/src/lib/coordinates.ts)\<close>

text \<open>
  The TypeScript \<^verbatim>\<open>number\<close> is modelled as a real number: the geometry below is
  exact arithmetic.  Rounding to IEEE 754 binary64 is modelled where a statement is
  about it, in the section on the binary64 arithmetic of the two conversions.  Division by a
  page dimension is the division of the reals; the source divides by
  \<^verbatim>\<open>pageDimensions.width\<close> and \<^verbatim>\<open>pageDimensions.height\<close>, which the callers take
  from a rendered page, and the two agree wherever the divisor is not zero.

  \<^verbatim>\<open>FieldRect\<close> is \<^verbatim>\<open>{x, y, w, h}\<close>; the selectors carry the prefix
  \<open>rect_\<close> because one-letter constants would capture the variables of every
  statement.  The anonymous pixel rectangle \<^verbatim>\<open>{x, y, w, h}\<close> of the source has the same
  shape and uses the same record.
\<close>

record FieldRect =
  rect_x :: real
  rect_y :: real
  rect_w :: real
  rect_h :: real

record PageDimensions =
  width :: real
  height :: real

datatype FieldType = Text | Date | Checkbox

datatype FontSize = Small | Medium | Large

text \<open>
  \<^verbatim>\<open>Field\<close>: \<^verbatim>\<open>id\<close>, \<^verbatim>\<open>key\<close>, \<^verbatim>\<open>type\<close> and \<^verbatim>\<open>rect\<close> carry the prefix
  \<open>field_\<close> (\<open>id\<close> is a constant of HOL).  The optional \<^verbatim>\<open>fontSize\<close> is an
  option; \<^verbatim>\<open>page_number\<close> is an integer.
\<close>

record Field =
  field_id :: string
  field_key :: string
  field_type :: FieldType
  page_number :: int
  fontSize :: "FontSize option"
  field_rect :: FieldRect

text \<open>
  \<^verbatim>\<open>Partial<Field>\<close>, the argument of \<^verbatim>\<open>updateField\<close>: every property may be
  absent (\<open>None\<close>).  A present \<^verbatim>\<open>fontSize\<close> may itself be undefined.
\<close>

record FieldUpdates =
  upd_id :: "string option"
  upd_key :: "string option"
  upd_type :: "FieldType option"
  upd_page_number :: "int option"
  upd_fontSize :: "FontSize option option"
  upd_rect :: "FieldRect option"

record DrawingState =
  isDrawing :: bool
  startX :: real
  startY :: real
  currentX :: real
  currentY :: real
  pageNumber :: int

record PDFCoords =
  pdf_x0 :: real
  pdf_y0 :: real
  pdf_x1 :: real
  pdf_y1 :: real

section \<open>Coordinate utilities (src/src/lib/coordinates.ts)\<close>

text \<open>
  The functions of the module in exact arithmetic.  The statements about geometry
  (page bounds, clamping, the rectangles the store holds) are made on these; what
  the two conversions compute in binary64 follows in the next section.
\<close>

definition pixelsToPercentage :: "FieldRect \<Rightarrow> PageDimensions \<Rightarrow> FieldRect" where
  "pixelsToPercentage pixelRect pageDimensions =
     \<lparr> rect_x = rect_x pixelRect / width pageDimensions,
       rect_y = rect_y pixelRect / height pageDimensions,
       rect_w = rect_w pixelRect / width pageDimensions,
       rect_h = rect_h pixelRect / height pageDimensions \<rparr>"

definition percentageToPixels :: "FieldRect \<Rightarrow> PageDimensions \<Rightarrow> FieldRect" where
  "percentageToPixels percentRect pageDimensions =
     \<lparr> rect_x = rect_x percentRect * width pageDimensions,
       rect_y = rect_y percentRect * height pageDimensions,
       rect_w = rect_w percentRect * width pageDimensions,
       rect_h = rect_h percentRect * height pageDimensions \<rparr>"

definition percentageToPDFCoords :: "FieldRect \<Rightarrow> PageDimensions \<Rightarrow> PDFCoords" where
  "percentageToPDFCoords percentRect pdfPageDimensions =
     (let x0 = rect_x percentRect * width pdfPageDimensions;
          y0 = rect_y percentRect * height pdfPageDimensions;
          x1 = (rect_x percentRect + rect_w percentRect) * width pdfPageDimensions;
          y1 = (rect_y percentRect + rect_h percentRect) * height pdfPageDimensions
      in \<lparr> pdf_x0 = x0, pdf_y0 = y0, pdf_x1 = x1, pdf_y1 = y1 \<rparr>)"

definition normalizeRect :: "real \<Rightarrow> real \<Rightarrow> real \<Rightarrow> real \<Rightarrow> FieldRect" where
  "normalizeRect sx sy ex ey =
     \<lparr> rect_x = min sx ex,
       rect_y = min sy ey,
       rect_w = \<bar>ex - sx\<bar>,
       rect_h = \<bar>ey - sy\<bar> \<rparr>"

definition isPointInRect :: "real \<Rightarrow> real \<Rightarrow> FieldRect \<Rightarrow> bool" where
  "isPointInRect px py r \<longleftrightarrow>
     px \<ge> rect_x r \<and> px \<le> rect_x r + rect_w r \<and> py \<ge> rect_y r \<and> py \<le> rect_y r + rect_h r"

definition MIN_FIELD_SIZE_PERCENT :: real where
  "MIN_FIELD_SIZE_PERCENT = 0.01"

definition isValidFieldSize :: "FieldRect \<Rightarrow> bool" where
  "isValidFieldSize r \<longleftrightarrow> rect_w r \<ge> MIN_FIELD_SIZE_PERCENT \<and> rect_h r \<ge> MIN_FIELD_SIZE_PERCENT"

section \<open>Binary64 arithmetic of the two conversions (src/src/lib/coordinates.ts)\<close>

text \<open>
  A \<^verbatim>\<open>number\<close> of the running program is an IEEE 754 binary64 value, and
  \<^verbatim>\<open>/\<close> and \<^verbatim>\<open>*\<close> return the exact quotient and product rounded to the nearest
  binary64 value, ties to the even significand.  The definitions of this section
  write that rounding out, for the two conversions whose round trip is a statement
  about rounding; the sections on geometry keep the exact versions above.

  A finite binary64 value is the real number it denotes (the two zeros are not
  told apart: they differ only in the sign of a quotient by zero, which is not
  finite either way).  \<open>NonFinite\<close> stands for \<^verbatim>\<open>NaN\<close>, \<^verbatim>\<open>Infinity\<close> and
  \<^verbatim>\<open>-Infinity\<close>.

  \<open>binaryExponent t\<close> is the \<open>e\<close> with \<open>2\<^sup>e \<le> \<bar>t\<bar> < 2\<^sup>e\<^sup>+\<^sup>1\<close>, read off the bit
  length of the integer part of \<open>\<bar>t\<bar>\<close> or of \<open>1 / \<bar>t\<bar>\<close>.  \<open>exponent64\<close> stops it at
  \<open>-1022\<close>, the exponent of the subnormal numbers; the significand has 53 bits, so
  the spacing of binary64 values around \<open>t\<close> is \<open>2\<close> to the power
  \<open>exponent64 t - 52\<close>.  \<open>round64\<close> rounds to the nearest multiple of that spacing,
  and \<open>fl64\<close> reports an overflow when the rounded value exceeds the largest finite
  binary64 value \<open>(2\<^sup>5\<^sup>3 - 1)\<cdot>2\<^sup>9\<^sup>7\<^sup>1\<close>.
\<close>

definition roundTiesToEven :: "real \<Rightarrow> int" where
  "roundTiesToEven y =
     (let n = \<lfloor>y\<rfloor>; d = y - of_int n in
      if d < 1 / 2 then n else if 1 / 2 < d then n + 1 else if even n then n else n + 1)"

definition binaryExponent :: "real \<Rightarrow> int" where
  "binaryExponent t =
     (if 1 \<le> \<bar>t\<bar> then bitlen \<lfloor>\<bar>t\<bar>\<rfloor> - 1 else - bitlen (\<lceil>1 / \<bar>t\<bar>\<rceil> - 1))"

definition exponent64 :: "real \<Rightarrow> int" where
  "exponent64 t = max (- 1022) (binaryExponent t)"

definition round64 :: "real \<Rightarrow> real" where
  "round64 t =
     (if t = 0 then 0
      else of_int (roundTiesToEven (t / 2 powi (exponent64 t - 52))) * 2 powi (exponent64 t - 52))"

definition maxDouble :: real where
  "maxDouble = (2 ^ 53 - 1) * 2 ^ 971"

datatype Double = Finite real | NonFinite

definition fl64 :: "real \<Rightarrow> Double" where
  "fl64 t = (if maxDouble < \<bar>round64 t\<bar> then NonFinite else Finite (round64 t))"

text \<open>
  \<^verbatim>\<open>x / y\<close> for finite \<open>x\<close> and \<open>y\<close>: a zero divisor gives \<^verbatim>\<open>Infinity\<close>,
  \<^verbatim>\<open>-Infinity\<close> or \<^verbatim>\<open>NaN\<close>.  \<^verbatim>\<open>a * y\<close> for finite \<open>y\<close>: a product with \<^verbatim>\<open>NaN\<close>
  or an infinity is \<^verbatim>\<open>NaN\<close> or an infinity.
\<close>

definition div64 :: "real \<Rightarrow> real \<Rightarrow> Double" where
  "div64 x y = (if y = 0 then NonFinite else fl64 (x / y))"

definition mul64 :: "Double \<Rightarrow> real \<Rightarrow> Double" where
  "mul64 a y = (case a of NonFinite \<Rightarrow> NonFinite | Finite x \<Rightarrow> fl64 (x * y))"

record DoubleRect =
  drect_x :: Double
  drect_y :: Double
  drect_w :: Double
  drect_h :: Double

text \<open>
  \<^verbatim>\<open>pixelsToPercentage\<close> and \<^verbatim>\<open>percentageToPixels\<close> as they compute: the
  pixel rectangle and the page dimensions hold finite numbers, the rectangle
  handed from the first to the second holds whatever the divisions returned.
\<close>

definition pixelsToPercentage64 :: "FieldRect \<Rightarrow> PageDimensions \<Rightarrow> DoubleRect" where
  "pixelsToPercentage64 pixelRect pageDimensions =
     \<lparr> drect_x = div64 (rect_x pixelRect) (width pageDimensions),
       drect_y = div64 (rect_y pixelRect) (height pageDimensions),
       drect_w = div64 (rect_w pixelRect) (width pageDimensions),
       drect_h = div64 (rect_h pixelRect) (height pageDimensions) \<rparr>"

definition percentageToPixels64 :: "DoubleRect \<Rightarrow> PageDimensions \<Rightarrow> DoubleRect" where
  "percentageToPixels64 percentRect pageDimensions =
     \<lparr> drect_x = mul64 (drect_x percentRect) (width pageDimensions),
       drect_y = mul64 (drect_y percentRect) (height pageDimensions),
       drect_w = mul64 (drect_w percentRect) (width pageDimensions),
       drect_h = mul64 (drect_h percentRect) (height pageDimensions) \<rparr>"

section \<open>Utility functions (src/unnamed/part_003)\<close>

definition clamp :: "real \<Rightarrow> real \<Rightarrow> real \<Rightarrow> real" where
  "clamp v lo hi = min (max v lo) hi"

section \<open>Template store (src/src/store/template.ts)\<close>

text \<open>
  The part of the Zustand store that the field registry, the selection, the drawing
  gesture and the page dimensions live in.  Every action of the source is a function
  from the state to the next state.  The property \<^verbatim>\<open>fields\<close> is \<open>store_fields\<close>
  (the record package reserves \<open>fields\<close>).
\<close>

record TemplateState =
  store_fields :: "Field list"
  selectedFieldId :: "string option"
  drawingState :: DrawingState
  pageDimensions :: "int \<rightharpoonup> PageDimensions"

definition initialDrawingState :: DrawingState where
  "initialDrawingState =
     \<lparr> isDrawing = False, startX = 0, startY = 0, currentX = 0, currentY = 0, pageNumber = 1 \<rparr>"

definition initialState :: TemplateState where
  "initialState =
     \<lparr> store_fields = [], selectedFieldId = None, drawingState = initialDrawingState,
       pageDimensions = Map.empty \<rparr>"

definition noUpdates :: FieldUpdates where
  "noUpdates =
     \<lparr> upd_id = None, upd_key = None, upd_type = None, upd_page_number = None,
       upd_fontSize = None, upd_rect = None \<rparr>"

text \<open>The object spread \<^verbatim>\<open>{ ...f, ...updates }\<close>.\<close>

definition applyUpdates :: "Field \<Rightarrow> FieldUpdates \<Rightarrow> Field" where
  "applyUpdates f u =
     \<lparr> field_id = (case upd_id u of None \<Rightarrow> field_id f | Some v \<Rightarrow> v),
       field_key = (case upd_key u of None \<Rightarrow> field_key f | Some v \<Rightarrow> v),
       field_type = (case upd_type u of None \<Rightarrow> field_type f | Some v \<Rightarrow> v),
       page_number = (case upd_page_number u of None \<Rightarrow> page_number f | Some v \<Rightarrow> v),
       fontSize = (case upd_fontSize u of None \<Rightarrow> fontSize f | Some v \<Rightarrow> v),
       field_rect = (case upd_rect u of None \<Rightarrow> field_rect f | Some v \<Rightarrow> v) \<rparr>"

definition addField :: "Field \<Rightarrow> TemplateState \<Rightarrow> TemplateState" where
  "addField field s = s\<lparr> store_fields := store_fields s @ [field] \<rparr>"

definition updateField :: "string \<Rightarrow> FieldUpdates \<Rightarrow> TemplateState \<Rightarrow> TemplateState" where
  "updateField i updates s =
     s\<lparr> store_fields := map (\<lambda>f. if field_id f = i then applyUpdates f updates else f) (store_fields s) \<rparr>"

definition removeField :: "string \<Rightarrow> TemplateState \<Rightarrow> TemplateState" where
  "removeField i s =
     s\<lparr> store_fields := filter (\<lambda>f. field_id f \<noteq> i) (store_fields s),
        selectedFieldId := (if selectedFieldId s = Some i then None else selectedFieldId s) \<rparr>"

definition setFields :: "Field list \<Rightarrow> TemplateState \<Rightarrow> TemplateState" where
  "setFields fs s = s\<lparr> store_fields := fs \<rparr>"

definition setSelectedFieldId :: "string option \<Rightarrow> TemplateState \<Rightarrow> TemplateState" where
  "setSelectedFieldId i s = s\<lparr> selectedFieldId := i \<rparr>"

definition resetDrawingState :: "TemplateState \<Rightarrow> TemplateState" where
  "resetDrawingState s = s\<lparr> drawingState := initialDrawingState \<rparr>"

definition setPageDimensions :: "int \<Rightarrow> PageDimensions \<Rightarrow> TemplateState \<Rightarrow> TemplateState" where
  "setPageDimensions n dimensions s = s\<lparr> pageDimensions := (pageDimensions s)(n \<mapsto> dimensions) \<rparr>"

section \<open>Field rectangle (FieldRectangle, src/unnamed/part_005)\<close>

text \<open>
  The component keeps \<^verbatim>\<open>dragMode\<close>, \<^verbatim>\<open>dragStart\<close>, \<^verbatim>\<open>initialRect\<close> and
  \<^verbatim>\<open>isEditing\<close> in React state; its props are the field, the field's pixel
  rectangle and the page dimensions.
\<close>

datatype DragMode = DragNone | Move | ResizeNW | ResizeNE | ResizeSW | ResizeSE

definition MIN_SIZE :: real where
  "MIN_SIZE = 20"

record RectangleState =
  dragMode :: DragMode
  dragStart_x :: real
  dragStart_y :: real
  initialRect :: FieldRect
  isEditing :: bool

text \<open>
  The rectangle \<^verbatim>\<open>newRect\<close> that \<^verbatim>\<open>handleMouseMove\<close> computes from the rectangle
  captured at mouse-down, the page dimensions and the pointer's displacement.  In the
  three modes that move the left or the top edge the source assigns \<^verbatim>\<open>newRect.w\<close>
  (\<^verbatim>\<open>newRect.h\<close>) from \<^verbatim>\<open>initialRect\<close> before it assigns \<^verbatim>\<open>newRect.x\<close>
  (\<^verbatim>\<open>newRect.y\<close>); all right-hand sides read \<^verbatim>\<open>initialRect\<close> only.
\<close>

definition dragNewRect :: "DragMode \<Rightarrow> FieldRect \<Rightarrow> PageDimensions \<Rightarrow> real \<Rightarrow> real \<Rightarrow> FieldRect" where
  "dragNewRect mode initial dims deltaX deltaY =
     (case mode of
        DragNone \<Rightarrow> initial
      | Move \<Rightarrow>
          initial\<lparr> rect_x := clamp (rect_x initial + deltaX) 0 (width dims - rect_w initial),
                   rect_y := clamp (rect_y initial + deltaY) 0 (height dims - rect_h initial) \<rparr>
      | ResizeSE \<Rightarrow>
          initial\<lparr> rect_w := clamp (rect_w initial + deltaX) MIN_SIZE (width dims - rect_x initial),
                   rect_h := clamp (rect_h initial + deltaY) MIN_SIZE (height dims - rect_y initial) \<rparr>
      | ResizeSW \<Rightarrow>
          (let newX = clamp (rect_x initial + deltaX) 0 (rect_x initial + rect_w initial - MIN_SIZE)
           in initial\<lparr> rect_w := rect_w initial + (rect_x initial - newX),
                       rect_x := newX,
                       rect_h := clamp (rect_h initial + deltaY) MIN_SIZE (height dims - rect_y initial) \<rparr>)
      | ResizeNE \<Rightarrow>
          (let newY = clamp (rect_y initial + deltaY) 0 (rect_y initial + rect_h initial - MIN_SIZE)
           in initial\<lparr> rect_w := clamp (rect_w initial + deltaX) MIN_SIZE (width dims - rect_x initial),
                       rect_h := rect_h initial + (rect_y initial - newY),
                       rect_y := newY \<rparr>)
      | ResizeNW \<Rightarrow>
          (let newX = clamp (rect_x initial + deltaX) 0 (rect_x initial + rect_w initial - MIN_SIZE);
               newY = clamp (rect_y initial + deltaY) 0 (rect_y initial + rect_h initial - MIN_SIZE)
           in initial\<lparr> rect_w := rect_w initial + (rect_x initial - newX),
                       rect_h := rect_h initial + (rect_y initial - newY),
                       rect_x := newX,
                       rect_y := newY \<rparr>))"

text \<open>
  The three handlers.  Each takes the props it reads and maps the pair of the
  component's state and the store to the next pair.  The mouse-move and mouse-up
  listeners exist only while \<^verbatim>\<open>dragMode\<close> is not \<^verbatim>\<open>'none'\<close>.
\<close>

definition FieldRectangle_handleMouseDown ::
  "Field \<Rightarrow> FieldRect \<Rightarrow> DragMode \<Rightarrow> real \<Rightarrow> real \<Rightarrow> RectangleState \<times> TemplateState
     \<Rightarrow> RectangleState \<times> TemplateState" where
  "FieldRectangle_handleMouseDown field pixelRect mode clientX clientY cs =
     (case cs of (c, s) \<Rightarrow>
        if isEditing c then (c, s)
        else (c\<lparr> dragMode := mode, dragStart_x := clientX, dragStart_y := clientY,
                 initialRect := pixelRect \<rparr>,
              setSelectedFieldId (Some (field_id field)) s))"

definition FieldRectangle_handleMouseMove ::
  "Field \<Rightarrow> PageDimensions \<Rightarrow> real \<Rightarrow> real \<Rightarrow> RectangleState \<times> TemplateState
     \<Rightarrow> RectangleState \<times> TemplateState" where
  "FieldRectangle_handleMouseMove field dims clientX clientY cs =
     (case cs of (c, s) \<Rightarrow>
        if dragMode c = DragNone then (c, s)
        else
          (let deltaX = clientX - dragStart_x c;
               deltaY = clientY - dragStart_y c;
               newRect = dragNewRect (dragMode c) (initialRect c) dims deltaX deltaY;
               percentRect = pixelsToPercentage newRect dims
           in (c, updateField (field_id field) (noUpdates\<lparr> upd_rect := Some percentRect \<rparr>) s)))"

definition FieldRectangle_handleMouseUp ::
  "RectangleState \<times> TemplateState \<Rightarrow> RectangleState \<times> TemplateState" where
  "FieldRectangle_handleMouseUp cs = (case cs of (c, s) \<Rightarrow> (c\<lparr> dragMode := DragNone \<rparr>, s))"

text \<open>
  The pointer events one field rectangle receives, and the rendering that supplies
  its props: \<^verbatim>\<open>FieldOverlay\<close> renders a rectangle for the field with the given id
  only when its page has dimensions, with
  \<^verbatim>\<open>pixelRect = percentageToPixels(field.rect, dimensions)\<close>.
\<close>

datatype PointerEvent = MouseDown DragMode real real | MouseMove real real | MouseUp

definition rectangleEvent ::
  "string \<Rightarrow> PointerEvent \<Rightarrow> RectangleState \<times> TemplateState \<Rightarrow> RectangleState \<times> TemplateState" where
  "rectangleEvent i e cs =
     (case find (\<lambda>f. field_id f = i) (store_fields (snd cs)) of
        None \<Rightarrow> cs
      | Some field \<Rightarrow>
          (case pageDimensions (snd cs) (page_number field) of
             None \<Rightarrow> cs
           | Some dims \<Rightarrow>
               (case e of
                  MouseDown mode clientX clientY \<Rightarrow>
                    FieldRectangle_handleMouseDown field
                      (percentageToPixels (field_rect field) dims) mode clientX clientY cs
                | MouseMove clientX clientY \<Rightarrow>
                    FieldRectangle_handleMouseMove field dims clientX clientY cs
                | MouseUp \<Rightarrow> FieldRectangle_handleMouseUp cs)))"

definition rectangleEvents ::
  "string \<Rightarrow> PointerEvent list \<Rightarrow> RectangleState \<times> TemplateState \<Rightarrow> RectangleState \<times> TemplateState" where
  "rectangleEvents i es cs = foldl (\<lambda>st e. rectangleEvent i e st) cs es"

definition initialRectangleState :: "FieldRect \<Rightarrow> RectangleState" where
  "initialRectangleState pixelRect =
     \<lparr> dragMode = DragNone, dragStart_x = 0, dragStart_y = 0, initialRect = pixelRect,
       isEditing = False \<rparr>"

text \<open>The page-bounds invariant of a normalized rectangle.\<close>

definition inPageBounds :: "FieldRect \<Rightarrow> bool" where
  "inPageBounds r \<longleftrightarrow> 0 \<le> rect_x r \<and> 0 \<le> rect_y r \<and> rect_x r + rect_w r \<le> 1 \<and> rect_y r + rect_h r \<le> 1"

section \<open>Field overlay (FieldOverlay, after the modal in src/src/components/GenerationModal.tsx)\<close>

text \<open>
  The decimal form of a natural number, as the template literal
  \<^verbatim>\<open>`field_${fields.length + 1}`\<close> prints it.
\<close>

definition digitChar :: "nat \<Rightarrow> char" where
  "digitChar d = char_of (48 + d)"

fun natToString :: "nat \<Rightarrow> string" where
  "natToString n = (if n < 10 then [digitChar n] else natToString (n div 10) @ [digitChar (n mod 10)])"

declare natToString.simps [simp del]

text \<open>
  \<^verbatim>\<open>handleMouseUp\<close> of the overlay of page \<open>pn\<close>.  \<^verbatim>\<open>generateId()\<close> reads the clock
  and a random number; its result is the parameter \<open>newId\<close>.
\<close>

definition FieldOverlay_handleMouseUp :: "int \<Rightarrow> string \<Rightarrow> TemplateState \<Rightarrow> TemplateState" where
  "FieldOverlay_handleMouseUp pn newId s =
     (case pageDimensions s pn of
        None \<Rightarrow> resetDrawingState s
      | Some dimensions \<Rightarrow>
          if \<not> isDrawing (drawingState s) \<or> pageNumber (drawingState s) \<noteq> pn
          then resetDrawingState s
          else
            (let pixelRect = normalizeRect (startX (drawingState s)) (startY (drawingState s))
                               (currentX (drawingState s)) (currentY (drawingState s));
                 percentRect = pixelsToPercentage pixelRect dimensions
             in resetDrawingState
                  (if isValidFieldSize percentRect
                   then
                     (let newField =
                            \<lparr> field_id = newId,
                              field_key = ''field_'' @ natToString (length (store_fields s) + 1),
                              field_type = Text,
                              page_number = pn,
                              fontSize = None,
                              field_rect = percentRect \<rparr>
                      in setSelectedFieldId (Some newId) (addField newField s))
                   else s)))"

section \<open>Field sidebar (FieldSidebar, after the store in src/src/store/template.ts)\<close>

definition selectedField :: "TemplateState \<Rightarrow> Field option" where
  "selectedField s =
     (case selectedFieldId s of
        None \<Rightarrow> None
      | Some i \<Rightarrow> find (\<lambda>f. field_id f = i) (store_fields s))"

datatype ApplyProperty = ApplyW | ApplyH | ApplyBoth

text \<open>The rectangle \<^verbatim>\<open>{ ...field.rect, ...updates }\<close> that one recipient is given.\<close>

definition appliedRect :: "ApplyProperty \<Rightarrow> Field \<Rightarrow> FieldRect \<Rightarrow> FieldRect" where
  "appliedRect property sel r =
     (let r1 = (if property = ApplyW \<or> property = ApplyBoth
                then r\<lparr> rect_w := rect_w (field_rect sel) \<rparr> else r)
      in (if property = ApplyH \<or> property = ApplyBoth
          then r1\<lparr> rect_h := rect_h (field_rect sel) \<rparr> else r1))"

text \<open>
  \<^verbatim>\<open>handleApplyToAll\<close>: the list \<^verbatim>\<open>samePage\<close> and each \<^verbatim>\<open>field.rect\<close> are read
  from the field list as it was when the handler started; the calls of
  \<^verbatim>\<open>updateField\<close> run one after the other on the store.
\<close>

definition handleApplyToAll :: "ApplyProperty \<Rightarrow> TemplateState \<Rightarrow> TemplateState" where
  "handleApplyToAll property s =
     (case selectedField s of
        None \<Rightarrow> s
      | Some sel \<Rightarrow>
          (let samePage = filter (\<lambda>f. page_number f = page_number sel \<and> field_id f \<noteq> field_id sel)
                            (store_fields s)
           in foldl (\<lambda>st field.
                       updateField (field_id field)
                         (noUpdates\<lparr> upd_rect := Some (appliedRect property sel (field_rect field)) \<rparr>) st)
                s samePage))"

section \<open>Generation (handlePreview, src/src/components/GenerationModal.tsx)\<close>

text \<open>
  A value of the data record.  \<^verbatim>\<open>handlePreview\<close> reads the record with
  \<^verbatim>\<open>JSON.parse\<close> into a \<^verbatim>\<open>Record<string, any>\<close>, so a value is any JSON value: null, a
  boolean, a number, a string, an array of values or an object (its properties in
  order).  \<open>JUndefined\<close> is what the lookup \<^verbatim>\<open>data[field.key]\<close> yields when the key
  is absent.  The record is the function from keys to the result of that lookup.
\<close>

datatype JSValue =
    JUndefined
  | JNull
  | JBool bool
  | JNum real
  | JStr string
  | JArr "JSValue list"
  | JObj "(string \<times> JSValue) list"

text \<open>
  The exception \<^verbatim>\<open>String(value)\<close> can raise.  \<^verbatim>\<open>handlePreview\<close> catches it
  around the whole generation, reports \<^verbatim>\<open>'Failed to generate preview'\<close> and produces
  no document.
\<close>

datatype JSError = TypeError

text \<open>
  The results of a sequence of steps that may raise: the values of all steps, or the
  first error.
\<close>

fun sequenceResults :: "(JSError + 'a) list \<Rightarrow> JSError + 'a list" where
  "sequenceResults [] = Inr []"
| "sequenceResults (x # xs) =
     (case x of
        Inl e \<Rightarrow> Inl e
      | Inr a \<Rightarrow> (case sequenceResults xs of Inl e \<Rightarrow> Inl e | Inr as \<Rightarrow> Inr (a # as)))"

text \<open>\<^verbatim>\<open>Array.prototype.join\<close> with the separator \<^verbatim>\<open>","\<close>, on the strings of the elements.\<close>

fun joinComma :: "string list \<Rightarrow> string" where
  "joinComma [] = []"
| "joinComma [t] = t"
| "joinComma (t # u # ts) = t @ '','' @ joinComma (u # ts)"

text \<open>
  \<^verbatim>\<open>String(value)\<close>.  The decimal form of a number is computed by the JavaScript
  runtime, not by this repository; it is the parameter \<open>numToString\<close>.  An array is
  the join of its elements, where an undefined or null element gives the empty string
  and every other element its own string.  An object parsed from JSON gives
  \<^verbatim>\<open>"[object Object]"\<close> through \<^verbatim>\<open>Object.prototype.toString\<close>, unless it has a
  property named \<^verbatim>\<open>toString\<close> of its own: that property holds a JSON value, which
  cannot be called, the inherited \<^verbatim>\<open>valueOf\<close> returns the object itself, and the
  conversion raises a \<^verbatim>\<open>TypeError\<close>.
\<close>

fun String_of :: "(real \<Rightarrow> string) \<Rightarrow> JSValue \<Rightarrow> JSError + string" where
  "String_of numToString JUndefined = Inr ''undefined''"
| "String_of numToString JNull = Inr ''null''"
| "String_of numToString (JBool b) = Inr (if b then ''true'' else ''false'')"
| "String_of numToString (JNum r) = Inr (numToString r)"
| "String_of numToString (JStr t) = Inr t"
| "String_of numToString (JArr vs) =
     (case sequenceResults
             (map (\<lambda>v. if v = JUndefined \<or> v = JNull then Inr [] else String_of numToString v) vs) of
        Inl e \<Rightarrow> Inl e
      | Inr ts \<Rightarrow> Inr (joinComma ts))"
| "String_of numToString (JObj kvs) =
     (if ''toString'' \<in> set (map fst kvs) then Inl TypeError else Inr ''[object Object]'')"

text \<open>
  \<^verbatim>\<open>toLowerCase\<close> on the characters a \<open>char\<close> holds (code points 0 to 255): the
  letters A to Z and the upper-case letters of Latin-1 move up by 32.
\<close>

definition toLowerChar :: "char \<Rightarrow> char" where
  "toLowerChar c =
     (let n = (of_char c :: nat)
      in if (65 \<le> n \<and> n \<le> 90) \<or> (192 \<le> n \<and> n \<le> 222 \<and> n \<noteq> 215) then char_of (n + 32) else c)"

definition toLowerCase :: "string \<Rightarrow> string" where
  "toLowerCase t = map toLowerChar t"

text \<open>
  One call of \<^verbatim>\<open>page.drawText\<close>: the index of the page in \<^verbatim>\<open>pages\<close>, the text and
  the options.  The font and the colour are the same in every call and are left out.
\<close>

record DrawTextCall =
  call_page :: nat
  call_text :: string
  call_x :: real
  call_y :: real
  call_size :: real
  call_maxWidth :: "real option"
  call_lineHeight :: "real option"

definition fontSizeMap :: "FontSize \<Rightarrow> real" where
  "fontSizeMap fs = (case fs of Small \<Rightarrow> 7 | Medium \<Rightarrow> 9 | Large \<Rightarrow> 12)"

text \<open>
  The body of the loop \<^verbatim>\<open>for (const field of fields)\<close> of \<^verbatim>\<open>handlePreview\<close>: the
  calls of \<^verbatim>\<open>drawText\<close> one iteration makes, or the error it raises.  \<open>pages\<close> holds
  the size of each page of the loaded document (\<^verbatim>\<open>page.getSize()\<close>).  Both branches
  evaluate \<^verbatim>\<open>String(value)\<close> before anything is drawn; in the checkbox branch it is
  the first operand of \<^verbatim>\<open>||\<close>.
\<close>

definition overlayField ::
  "(real \<Rightarrow> string) \<Rightarrow> PageDimensions list \<Rightarrow> (string \<Rightarrow> JSValue) \<Rightarrow> Field
     \<Rightarrow> JSError + DrawTextCall list" where
  "overlayField numToString pages data field =
     (let v = data (field_key field) in
      if v = JUndefined \<or> v = JNull \<or> v = JStr [] then Inr []
      else
        (let pageIndex = page_number field - 1 in
         if pageIndex < 0 \<or> pageIndex \<ge> int (length pages) then Inr []
         else
           (let page = pages ! nat pageIndex;
                x = rect_x (field_rect field) * width page + 2;
                fontSizePt = fontSizeMap (case fontSize field of None \<Rightarrow> Medium | Some fs \<Rightarrow> fs);
                y = height page - (rect_y (field_rect field) * height page) - fontSizePt - 2;
                boxWidth = (rect_w (field_rect field) * width page) - 4;
                lineHeight = fontSizePt * 1.2
            in if field_type field = Checkbox
               then
                 (case String_of numToString v of
                    Inl e \<Rightarrow> Inl e
                  | Inr t \<Rightarrow>
                      if toLowerCase t = ''true'' \<or> v = JBool True
                      then Inr [\<lparr> call_page = nat pageIndex, call_text = ''X'', call_x = x,
                                  call_y = y, call_size = fontSizePt, call_maxWidth = None,
                                  call_lineHeight = None \<rparr>]
                      else Inr [])
               else
                 (case String_of numToString v of
                    Inl e \<Rightarrow> Inl e
                  | Inr t \<Rightarrow>
                      Inr [\<lparr> call_page = nat pageIndex, call_text = t, call_x = x, call_y = y,
                             call_size = fontSizePt, call_maxWidth = Some boxWidth,
                             call_lineHeight = Some lineHeight \<rparr>]))))"

text \<open>
  The loop: the calls of all iterations, in the order of the field list.  An error
  leaves the loop, and the document drawn so far is given up.
\<close>

fun overlay ::
  "(real \<Rightarrow> string) \<Rightarrow> PageDimensions list \<Rightarrow> (string \<Rightarrow> JSValue) \<Rightarrow> Field list
     \<Rightarrow> JSError + DrawTextCall list" where
  "overlay numToString pages data [] = Inr []"
| "overlay numToString pages data (field # rest) =
     (case overlayField numToString pages data field of
        Inl e \<Rightarrow> Inl e
      | Inr calls \<Rightarrow>
          (case overlay numToString pages data rest of
             Inl e \<Rightarrow> Inl e
           | Inr later \<Rightarrow> Inr (calls @ later)))"

text \<open>
  The two kinds of instruction: a mark is the call of the checkbox branch (the text
  \<^verbatim>\<open>'X'\<close>, no \<^verbatim>\<open>maxWidth\<close>, no \<^verbatim>\<open>lineHeight\<close>), a text instruction is the call
  of the other branch (both options given).
\<close>

definition isMark :: "DrawTextCall \<Rightarrow> bool" where
  "isMark c \<longleftrightarrow> call_text c = ''X'' \<and> call_maxWidth c = None \<and> call_lineHeight c = None"

definition isTextInstruction :: "DrawTextCall \<Rightarrow> bool" where
  "isTextInstruction c \<longleftrightarrow> call_maxWidth c \<noteq> None \<and> call_lineHeight c \<noteq> None"

text \<open>The scalar values of \<^verbatim>\<open>GenerationData\<close>: booleans, numbers and strings.\<close>

definition isScalar :: "JSValue \<Rightarrow> bool" where
  "isScalar v = (case v of JBool b \<Rightarrow> True | JNum r \<Rightarrow> True | JStr t \<Rightarrow> True | _ \<Rightarrow> False)"

section \<open>Vocabulary of the properties\<close>

text \<open>
  Equality within a relative tolerance of \<open>10\<^sup>-\<^sup>6\<close>, for numbers and for
  rectangles component by component.
\<close>

definition withinRelTol :: "real \<Rightarrow> real \<Rightarrow> bool" where
  "withinRelTol a b \<longleftrightarrow> \<bar>a - b\<bar> \<le> 0.000001 * \<bar>b\<bar>"

definition rectWithinRelTol :: "FieldRect \<Rightarrow> FieldRect \<Rightarrow> bool" where
  "rectWithinRelTol r' r \<longleftrightarrow>
     withinRelTol (rect_x r') (rect_x r) \<and> withinRelTol (rect_y r') (rect_y r) \<and>
     withinRelTol (rect_w r') (rect_w r) \<and> withinRelTol (rect_h r') (rect_h r)"

text \<open>
  A rectangle all of whose components are finite, and the range in which the round
  trip of a component \<open>c\<close> through the dimension \<open>D\<close> neither underflows nor
  overflows: \<open>c\<close> is zero, or \<open>c\<close> and the quotient \<open>c / D\<close> are normal numbers
  with one binade to spare at either end.
\<close>

definition finiteRect :: "FieldRect \<Rightarrow> DoubleRect" where
  "finiteRect r =
     \<lparr> drect_x = Finite (rect_x r), drect_y = Finite (rect_y r),
       drect_w = Finite (rect_w r), drect_h = Finite (rect_h r) \<rparr>"

definition roundTripRange :: "real \<Rightarrow> real \<Rightarrow> bool" where
  "roundTripRange c D \<longleftrightarrow>
     c = 0 \<or>
     (2 / 2 ^ 1022 \<le> \<bar>c\<bar> \<and> \<bar>c\<bar> \<le> 2 ^ 1022 \<and> 1 / 2 ^ 1022 \<le> \<bar>c\<bar> / D \<and> \<bar>c\<bar> / D \<le> 2 ^ 1023)"

text \<open>The selection is empty or names a field of the registry.\<close>

definition selectionConsistent :: "TemplateState \<Rightarrow> bool" where
  "selectionConsistent s \<longleftrightarrow>
     (case selectedFieldId s of None \<Rightarrow> True | Some i \<Rightarrow> i \<in> set (map field_id (store_fields s)))"

text \<open>Shorthand for the fields and rectangles of the worked examples.\<close>

abbreviation mkField :: "string \<Rightarrow> string \<Rightarrow> FieldType \<Rightarrow> int \<Rightarrow> FieldRect \<Rightarrow> Field" where
  "mkField i k t pn r \<equiv>
     \<lparr> field_id = i, field_key = k, field_type = t, page_number = pn, fontSize = None, field_rect = r \<rparr>"

abbreviation mkRect :: "real \<Rightarrow> real \<Rightarrow> real \<Rightarrow> real \<Rightarrow> FieldRect" where
  "mkRect a b c d \<equiv> \<lparr> rect_x = a, rect_y = b, rect_w = c, rect_h = d \<rparr>"

text \<open>
  A pixel rectangle that lies within the page and is at least \<^verbatim>\<open>MIN_SIZE\<close> wide and
  high, and the state of a rectangle component and the store in which the field with
  id \<open>i\<close>, if there is one, is on page \<open>pn\<close> with such a pixel rectangle, the page
  has the positive dimensions \<open>d\<close>, and a drag in progress started from such a
  rectangle.
\<close>

definition pixelRectOK :: "FieldRect \<Rightarrow> PageDimensions \<Rightarrow> bool" where
  "pixelRectOK r d \<longleftrightarrow>
     0 \<le> rect_x r \<and> 0 \<le> rect_y r \<and> rect_x r + rect_w r \<le> width d \<and>
     rect_y r + rect_h r \<le> height d \<and> MIN_SIZE \<le> rect_w r \<and> MIN_SIZE \<le> rect_h r"

definition dragInvariant ::
  "string \<Rightarrow> int \<Rightarrow> PageDimensions \<Rightarrow> RectangleState \<times> TemplateState \<Rightarrow> bool" where
  "dragInvariant i pn d cs \<longleftrightarrow>
     pageDimensions (snd cs) pn = Some d \<and> 0 < width d \<and> 0 < height d \<and>
     (dragMode (fst cs) = DragNone \<or> pixelRectOK (initialRect (fst cs)) d) \<and>
     (case find (\<lambda>f. field_id f = i) (store_fields (snd cs)) of
        None \<Rightarrow> True
      | Some f \<Rightarrow> page_number f = pn \<and> pixelRectOK (percentageToPixels (field_rect f) d) d)"

section \<open>Coordinate transform\<close>

lemma roundtrip_exact:
  "width d \<noteq> 0 \<Longrightarrow> height d \<noteq> 0 \<Longrightarrow> percentageToPixels (pixelsToPercentage r d) d = r"
  by (simp add: percentageToPixels_def pixelsToPercentage_def)

text \<open>
  The binary64 conversions return, component by component, the rounded results of
  the exact ones.
\<close>

lemma pixelsToPercentage64_rounds:
  "width d \<noteq> 0 \<Longrightarrow> height d \<noteq> 0 \<Longrightarrow>
   pixelsToPercentage64 r d =
     \<lparr> drect_x = fl64 (rect_x (pixelsToPercentage r d)),
       drect_y = fl64 (rect_y (pixelsToPercentage r d)),
       drect_w = fl64 (rect_w (pixelsToPercentage r d)),
       drect_h = fl64 (rect_h (pixelsToPercentage r d)) \<rparr>"
  by (simp add: pixelsToPercentage64_def pixelsToPercentage_def div64_def)

lemma percentageToPixels64_rounds:
  "percentageToPixels64 (finiteRect p) d =
     \<lparr> drect_x = fl64 (rect_x (percentageToPixels p d)),
       drect_y = fl64 (rect_y (percentageToPixels p d)),
       drect_w = fl64 (rect_w (percentageToPixels p d)),
       drect_h = fl64 (rect_h (percentageToPixels p d)) \<rparr>"
  by (simp add: percentageToPixels64_def percentageToPixels_def finiteRect_def mul64_def)

text \<open>Rounding: the error of one operation, and the exponent the spacing is taken from.\<close>

lemma roundTiesToEven_error: "\<bar>of_int (roundTiesToEven y) - y\<bar> \<le> 1 / 2"
  unfolding roundTiesToEven_def Let_def by (auto simp: abs_if) linarith+

lemma binaryExponent_lower:
  assumes "t \<noteq> 0"
  shows "2 powi (binaryExponent t) \<le> \<bar>t\<bar>"
proof (cases "1 \<le> \<bar>t\<bar>")
  case True
  define m where "m = \<lfloor>\<bar>t\<bar>\<rfloor>"
  have m1: "1 \<le> m" using True by (simp add: m_def le_floor_iff)
  hence m0: "0 < m" by simp
  from bitlen_bounds [OF m0] have lo: "2 ^ nat (bitlen m - 1) \<le> m" by simp
  have "0 < bitlen m" using m0 bitlen_eq_zero_iff [of m] bitlen_nonneg [of m] by linarith
  hence "(2::real) powi (bitlen m - 1) = 2 ^ nat (bitlen m - 1)"
    by (simp add: power_int_def)
  also have "\<dots> = of_int (2 ^ nat (bitlen m - 1))" by simp
  also have "\<dots> \<le> of_int m" using lo by (simp only: of_int_le_iff)
  also have "\<dots> \<le> \<bar>t\<bar>" by (simp add: m_def)
  finally show ?thesis using True by (simp add: binaryExponent_def m_def)
next
  case False
  hence lt: "\<bar>t\<bar> < 1" by simp
  have pos: "0 < \<bar>t\<bar>" using assms by simp
  define k where "k = \<lceil>1 / \<bar>t\<bar>\<rceil>"
  have "1 < 1 / \<bar>t\<bar>" using lt pos by simp
  hence "1 < k" unfolding k_def by (simp add: less_ceiling_iff)
  hence k0: "0 < k - 1" by simp
  define j where "j = bitlen (k - 1)"
  from bitlen_bounds [OF k0] have "k - 1 < 2 ^ nat j" by (simp add: j_def)
  hence kle: "k \<le> 2 ^ nat j" by simp
  have j0: "0 \<le> j" by (simp add: j_def bitlen_nonneg)
  have "1 / \<bar>t\<bar> \<le> of_int k" by (simp add: k_def)
  also have "\<dots> \<le> of_int (2 ^ nat j)" using kle by (simp only: of_int_le_iff)
  also have "\<dots> = 2 ^ nat j" by simp
  finally have "1 / \<bar>t\<bar> \<le> 2 ^ nat j" .
  hence "1 \<le> 2 ^ nat j * \<bar>t\<bar>" using pos by (simp add: field_simps)
  hence "1 / 2 ^ nat j \<le> \<bar>t\<bar>" by (simp add: field_simps)
  moreover have "(2::real) powi (- j) = 1 / 2 ^ nat j"
    using j0 by (simp add: power_int_def field_simps)
  ultimately show ?thesis using False by (simp add: binaryExponent_def k_def j_def)
qed

lemma binaryExponent_upper:
  assumes "t \<noteq> 0"
  shows "\<bar>t\<bar> < 2 powi (binaryExponent t + 1)"
proof (cases "1 \<le> \<bar>t\<bar>")
  case True
  define m where "m = \<lfloor>\<bar>t\<bar>\<rfloor>"
  have m1: "1 \<le> m" using True by (simp add: m_def le_floor_iff)
  hence m0: "0 < m" by simp
  from bitlen_bounds [OF m0] have "m < 2 ^ nat (bitlen m)" by simp
  hence hi: "m + 1 \<le> 2 ^ nat (bitlen m)" by simp
  have "\<bar>t\<bar> < of_int (m + 1)" unfolding m_def by linarith
  also have "\<dots> \<le> of_int (2 ^ nat (bitlen m))" using hi by (simp only: of_int_le_iff)
  also have "\<dots> = 2 ^ nat (bitlen m)" by simp
  also have "\<dots> = 2 powi (bitlen m)" by (simp add: power_int_def bitlen_nonneg)
  finally show ?thesis using True by (simp add: binaryExponent_def m_def)
next
  case False
  hence lt: "\<bar>t\<bar> < 1" by simp
  have pos: "0 < \<bar>t\<bar>" using assms by simp
  define k where "k = \<lceil>1 / \<bar>t\<bar>\<rceil>"
  have "1 < 1 / \<bar>t\<bar>" using lt pos by simp
  hence "1 < k" unfolding k_def by (simp add: less_ceiling_iff)
  hence k0: "0 < k - 1" by simp
  define j where "j = bitlen (k - 1)"
  have j1: "0 < j" using k0 bitlen_eq_zero_iff [of "k - 1"] bitlen_nonneg [of "k - 1"]
    unfolding j_def by linarith
  from bitlen_bounds [OF k0] have lo: "2 ^ nat (j - 1) \<le> k - 1" by (simp add: j_def)
  have "(2::real) ^ nat (j - 1) = of_int (2 ^ nat (j - 1))" by simp
  also have "\<dots> \<le> of_int (k - 1)" using lo by (simp only: of_int_le_iff)
  also have "\<dots> < 1 / \<bar>t\<bar>" unfolding k_def by linarith
  finally have "2 ^ nat (j - 1) * \<bar>t\<bar> < 1" using pos by (simp add: field_simps)
  hence "\<bar>t\<bar> < 1 / 2 ^ nat (j - 1)" by (simp add: field_simps)
  moreover have "(2::real) powi (- j + 1) = 1 / 2 ^ nat (j - 1)"
  proof -
    have "- j + 1 = - (j - 1)" by simp
    thus ?thesis using j1 by (simp only: power_int_minus) (simp add: power_int_def field_simps)
  qed
  ultimately show ?thesis using False by (simp add: binaryExponent_def k_def j_def)
qed

lemma binaryExponent_unique:
  assumes "2 powi e \<le> \<bar>t\<bar>" and "\<bar>t\<bar> < 2 powi (e + 1)"
  shows "binaryExponent t = e"
proof -
  have "(0::real) < 2 powi e" by simp
  with assms(1) have "0 < \<bar>t\<bar>" by linarith
  hence t0: "t \<noteq> 0" by simp
  have "(2::real) powi e < 2 powi (binaryExponent t + 1)"
    using assms(1) binaryExponent_upper [OF t0] by linarith
  hence "e < binaryExponent t + 1"
    using power_int_increasing [of "binaryExponent t + 1" e "2::real"] by force
  moreover have "(2::real) powi (binaryExponent t) < 2 powi (e + 1)"
    using assms(2) binaryExponent_lower [OF t0] by linarith
  hence "binaryExponent t < e + 1"
    using power_int_increasing [of "e + 1" "binaryExponent t" "2::real"] by force
  ultimately show ?thesis by simp
qed

lemma exponent64_subnormal:
  assumes "t \<noteq> 0" and "\<bar>t\<bar> < 1 / 2 ^ 1022"
  shows "exponent64 t = - 1022"
proof -
  have "(2::real) powi (- 1022) = 1 / 2 ^ 1022"
    by (simp add: power_int_minus field_simps)
  with assms binaryExponent_lower [OF assms(1)]
  have "(2::real) powi (binaryExponent t) < 2 powi (- 1022)" by linarith
  hence "binaryExponent t < - 1022"
    using power_int_increasing [of "- 1022" "binaryExponent t" "2::real"] by force
  thus ?thesis by (simp add: exponent64_def)
qed

lemma exponent64_lower:
  assumes "1 / 2 ^ 1022 \<le> \<bar>t\<bar>"
  shows "2 powi (exponent64 t) \<le> \<bar>t\<bar>"
proof -
  have "(0::real) < 1 / 2 ^ 1022" by simp
  with assms have t0: "t \<noteq> 0" by auto
  have "(2::real) powi (- 1022) = 1 / 2 ^ 1022"
    by (simp add: power_int_minus field_simps)
  with assms binaryExponent_lower [OF t0] show ?thesis
    by (simp add: exponent64_def max_def)
qed

lemma round64_error:
  assumes "1 / 2 ^ 1022 \<le> \<bar>t\<bar>"
  shows "\<bar>round64 t - t\<bar> \<le> \<bar>t\<bar> / 2 ^ 53"
proof -
  have "(0::real) < 1 / 2 ^ 1022" by simp
  with assms have t0: "t \<noteq> 0" by auto
  define e where "e = exponent64 t"
  define u :: real where "u = 2 powi (e - 52)"
  have u0: "0 < u" by (simp add: u_def)
  have r: "round64 t = of_int (roundTiesToEven (t / u)) * u"
    using t0 by (simp add: round64_def u_def e_def)
  have "round64 t - t = (of_int (roundTiesToEven (t / u)) - t / u) * u"
    using u0 by (simp add: r field_simps)
  hence "\<bar>round64 t - t\<bar> = \<bar>of_int (roundTiesToEven (t / u)) - t / u\<bar> * u"
    using u0 by (simp add: abs_mult)
  also have "\<dots> \<le> 1 / 2 * u"
    using roundTiesToEven_error [of "t / u"] u0 by (intro mult_right_mono) simp_all
  also have "u = 2 powi e / 2 ^ 52"
    by (simp add: u_def power_int_diff)
  also have "1 / 2 * (2 powi e / 2 ^ 52) = 2 powi e / (2 ^ 53 :: real)"
    by simp
  also have "\<dots> \<le> \<bar>t\<bar> / 2 ^ 53"
    using exponent64_lower [OF assms] by (simp add: e_def divide_right_mono)
  finally show ?thesis .
qed

lemma fl64_finite: "\<bar>round64 t\<bar> \<le> maxDouble \<Longrightarrow> fl64 t = Finite (round64 t)"
  by (simp add: fl64_def)

lemma round64_bound:
  assumes "1 / 2 ^ 1022 \<le> \<bar>t\<bar>"
  shows "\<bar>round64 t\<bar> \<le> \<bar>t\<bar> * (1 + 1 / 2 ^ 53)"
proof -
  have "\<bar>round64 t\<bar> \<le> \<bar>t\<bar> + \<bar>round64 t - t\<bar>" by linarith
  also have "\<dots> \<le> \<bar>t\<bar> + \<bar>t\<bar> / 2 ^ 53" using round64_error [OF assms] by linarith
  also have "\<dots> = \<bar>t\<bar> * (1 + 1 / 2 ^ 53)" by (simp add: algebra_simps)
  finally show ?thesis .
qed

lemma maxDouble_bound1: "(2::real) ^ 1023 * (1 + 1 / 2 ^ 53) \<le> maxDouble"
  by (simp add: maxDouble_def)

lemma maxDouble_bound2: "(2::real) ^ 1022 * (1 + 1 / 2 ^ 53) * (1 + 1 / 2 ^ 53) \<le> maxDouble"
  by (simp add: maxDouble_def)

lemma roundtrip_component:
  assumes D: "0 < D"
    and c1: "2 / 2 ^ 1022 \<le> \<bar>c\<bar>" and c2: "\<bar>c\<bar> \<le> 2 ^ 1022"
    and q1: "1 / 2 ^ 1022 \<le> \<bar>c\<bar> / D" and q2: "\<bar>c\<bar> / D \<le> 2 ^ 1023"
  shows "\<exists>v. mul64 (div64 c D) D = Finite v \<and> \<bar>v - c\<bar> \<le> 3 * \<bar>c\<bar> / 2 ^ 53"
proof -
  define \<delta> :: real where "\<delta> = 1 / 2 ^ 53"
  have d0: "0 < \<delta>" and d1: "\<delta> \<le> 1 / 2" by (simp_all add: \<delta>_def)
  define q where "q = c / D"
  define q' where "q' = round64 q"
  define p where "p = q' * D"
  define p' where "p' = round64 p"
  have aq: "\<bar>q\<bar> = \<bar>c\<bar> / D" using D by (simp add: q_def)
  have qn: "1 / 2 ^ 1022 \<le> \<bar>q\<bar>" using q1 aq by simp
  have e1: "\<bar>q' - q\<bar> \<le> \<bar>q\<bar> * \<delta>"
    using round64_error [OF qn] by (simp add: q'_def \<delta>_def)
  have "\<bar>q'\<bar> \<le> \<bar>q\<bar> * (1 + 1 / 2 ^ 53)"
    using round64_bound [OF qn] by (simp add: q'_def)
  also have "\<dots> \<le> 2 ^ 1023 * (1 + 1 / 2 ^ 53)"
    using q2 aq by (intro mult_right_mono) simp_all
  also note maxDouble_bound1
  finally have f1: "div64 c D = Finite q'"
    using D by (simp add: div64_def fl64_finite q'_def q_def)
  have "p - c = (q' - q) * D" using D by (simp add: p_def q_def algebra_simps)
  hence "\<bar>p - c\<bar> = \<bar>q' - q\<bar> * D" using D by (simp add: abs_mult)
  also have "\<dots> \<le> \<bar>q\<bar> * \<delta> * D" using e1 D by (intro mult_right_mono) simp_all
  also have "\<dots> = \<bar>c\<bar> * \<delta>" using D by (simp add: aq)
  finally have e2: "\<bar>p - c\<bar> \<le> \<bar>c\<bar> * \<delta>" .
  have "\<bar>c\<bar> * \<delta> \<le> \<bar>c\<bar> * (1 / 2)" using d1 by (intro mult_left_mono) simp_all
  with e2 have "\<bar>c\<bar> / 2 \<le> \<bar>p\<bar>" by linarith
  with c1 have pn: "1 / 2 ^ 1022 \<le> \<bar>p\<bar>" by simp
  have pu: "\<bar>p\<bar> \<le> \<bar>c\<bar> * (1 + \<delta>)" using e2 by (simp add: algebra_simps)
  have e3: "\<bar>p' - p\<bar> \<le> \<bar>p\<bar> * \<delta>"
    using round64_error [OF pn] by (simp add: p'_def \<delta>_def)
  have "\<bar>p'\<bar> \<le> \<bar>p\<bar> * (1 + 1 / 2 ^ 53)"
    using round64_bound [OF pn] by (simp add: p'_def)
  also have "\<dots> \<le> (\<bar>c\<bar> * (1 + \<delta>)) * (1 + 1 / 2 ^ 53)"
    using pu by (intro mult_right_mono) simp_all
  also have "\<dots> \<le> (2 ^ 1022 * (1 + \<delta>)) * (1 + 1 / 2 ^ 53)"
    using c2 d0 by (intro mult_right_mono) simp_all
  also have "\<dots> \<le> maxDouble" using maxDouble_bound2 by (simp add: \<delta>_def)
  finally have f2: "mul64 (div64 c D) D = Finite p'"
    by (simp add: f1 mul64_def fl64_finite p'_def p_def)
  have "\<bar>p\<bar> * \<delta> \<le> (\<bar>c\<bar> * (1 + \<delta>)) * \<delta>"
    using pu d0 by (intro mult_right_mono) simp_all
  also have "\<dots> \<le> (\<bar>c\<bar> * 2) * \<delta>"
    using d0 d1 by (intro mult_right_mono mult_left_mono) simp_all
  finally have "\<bar>p' - p\<bar> \<le> 2 * \<bar>c\<bar> * \<delta>" using e3 by simp
  with e2 have "\<bar>p' - c\<bar> \<le> 3 * \<bar>c\<bar> * \<delta>" by linarith
  hence "\<bar>p' - c\<bar> \<le> 3 * \<bar>c\<bar> / 2 ^ 53" by (simp add: \<delta>_def)
  with f2 show ?thesis by blast
qed

lemma roundtrip_zero: "0 < D \<Longrightarrow> mul64 (div64 0 D) D = Finite 0"
  by (simp add: div64_def mul64_def fl64_def round64_def maxDouble_def)

lemma roundtrip_component_tol:
  assumes "0 < D" and "roundTripRange c D"
  shows "\<exists>v. mul64 (div64 c D) D = Finite v \<and> withinRelTol v c"
proof (cases "c = 0")
  case True
  with roundtrip_zero [OF assms(1)] show ?thesis
    by (simp add: withinRelTol_def)
next
  case False
  with assms(2) have r: "2 / 2 ^ 1022 \<le> \<bar>c\<bar>" "\<bar>c\<bar> \<le> 2 ^ 1022"
      "1 / 2 ^ 1022 \<le> \<bar>c\<bar> / D" "\<bar>c\<bar> / D \<le> 2 ^ 1023"
    by (simp_all add: roundTripRange_def)
  from roundtrip_component [OF assms(1) r] obtain v
    where v: "mul64 (div64 c D) D = Finite v" and e: "\<bar>v - c\<bar> \<le> 3 * \<bar>c\<bar> / 2 ^ 53"
    by blast
  have "3 * \<bar>c\<bar> / 2 ^ 53 = \<bar>c\<bar> * (3 / 2 ^ 53)" by simp
  also have "\<dots> \<le> \<bar>c\<bar> * 0.000001" by (intro mult_left_mono) simp_all
  finally have "\<bar>v - c\<bar> \<le> 0.000001 * \<bar>c\<bar>" using e by simp
  with v show ?thesis by (auto simp: withinRelTol_def)
qed

text \<open>
  C2, as the code has it.  Take page dimensions with positive width and height and
  a pixel rectangle each of whose components is zero or stays, together with its
  quotient by the page dimension, in the range of the normal binary64 numbers (the
  component between \<open>2\<^sup>-\<^sup>1\<^sup>0\<^sup>2\<^sup>1\<close> and \<open>2\<^sup>1\<^sup>0\<^sup>2\<^sup>2\<close> in magnitude, the quotient
  between \<open>2\<^sup>-\<^sup>1\<^sup>0\<^sup>2\<^sup>2\<close> and \<open>2\<^sup>1\<^sup>0\<^sup>2\<^sup>3\<close>).  Then converting to normalized space
  and back, each division and each multiplication rounded to binary64, returns a
  rectangle of finite numbers, each within \<open>10\<^sup>-\<^sup>6\<close> relative tolerance of the
  component it started from.
\<close>

theorem roundtrip_within_tolerance:
  assumes "0 < width d" and "0 < height d"
    and "roundTripRange (rect_x r) (width d)" and "roundTripRange (rect_y r) (height d)"
    and "roundTripRange (rect_w r) (width d)" and "roundTripRange (rect_h r) (height d)"
  shows "\<exists>r'. percentageToPixels64 (pixelsToPercentage64 r d) d = finiteRect r' \<and>
              rectWithinRelTol r' r"
proof -
  from roundtrip_component_tol [OF assms(1) assms(3)] obtain vx
    where vx: "mul64 (div64 (rect_x r) (width d)) (width d) = Finite vx"
      and tx: "withinRelTol vx (rect_x r)" by blast
  from roundtrip_component_tol [OF assms(2) assms(4)] obtain vy
    where vy: "mul64 (div64 (rect_y r) (height d)) (height d) = Finite vy"
      and ty: "withinRelTol vy (rect_y r)" by blast
  from roundtrip_component_tol [OF assms(1) assms(5)] obtain vw
    where vw: "mul64 (div64 (rect_w r) (width d)) (width d) = Finite vw"
      and tw: "withinRelTol vw (rect_w r)" by blast
  from roundtrip_component_tol [OF assms(2) assms(6)] obtain vh
    where vh: "mul64 (div64 (rect_h r) (height d)) (height d) = Finite vh"
      and th: "withinRelTol vh (rect_h r)" by blast
  have "percentageToPixels64 (pixelsToPercentage64 r d) d = finiteRect (mkRect vx vy vw vh)"
    by (simp add: percentageToPixels64_def pixelsToPercentage64_def finiteRect_def vx vy vw vh)
  moreover have "rectWithinRelTol (mkRect vx vy vw vh) r"
    by (simp add: rectWithinRelTol_def tx ty tw th)
  ultimately show ?thesis by blast
qed

text \<open>
  On a US Letter page of 612 by 792 points the rectangle \<open>(21, 13, 150, 26)\<close> comes
  back as \<open>(21 + 2\<^sup>-\<^sup>4\<^sup>8, 13 + 2\<^sup>-\<^sup>4\<^sup>9, 150, 26 + 2\<^sup>-\<^sup>4\<^sup>8)\<close>, which the program prints as
  \<^verbatim>\<open>21.000000000000004\<close>, \<^verbatim>\<open>13.000000000000002\<close>, \<^verbatim>\<open>150\<close> and
  \<^verbatim>\<open>26.000000000000004\<close>: not the rectangle it started from, and within the
  tolerance.
\<close>

theorem roundtrip_within_tolerance_witness:
  "percentageToPixels64
     (pixelsToPercentage64 (mkRect 21 13 150 26) \<lparr> width = 612, height = 792 \<rparr>)
     \<lparr> width = 612, height = 792 \<rparr>
   = finiteRect (mkRect (21 + 1 / 2 ^ 48) (13 + 1 / 2 ^ 49) 150 (26 + 1 / 2 ^ 48)) \<and>
   rectWithinRelTol (mkRect (21 + 1 / 2 ^ 48) (13 + 1 / 2 ^ 49) 150 (26 + 1 / 2 ^ 48))
     (mkRect 21 13 150 26) \<and>
   mkRect (21 + 1 / 2 ^ 48) (13 + 1 / 2 ^ 49) 150 (26 + 1 / 2 ^ 48) \<noteq> mkRect 21 13 150 26"
proof -
  let ?d = "\<lparr> width = 612, height = 792 \<rparr>"
  let ?r = "mkRect 21 13 150 26"
  let ?R = "mkRect (21 + 1 / 2 ^ 48) (13 + 1 / 2 ^ 49) 150 (26 + 1 / 2 ^ 48)"
  have x: "mul64 (div64 21 612) 612 = Finite (21 + 1 / 2 ^ 48)"
    by (simp add: round64_def exponent64_def binaryExponent_def compute_bitlen
        roundTiesToEven_def Let_def power_int_minus fl64_def maxDouble_def div64_def mul64_def)
  have y: "mul64 (div64 13 792) 792 = Finite (13 + 1 / 2 ^ 49)"
    by (simp add: round64_def exponent64_def binaryExponent_def compute_bitlen
        roundTiesToEven_def Let_def power_int_minus fl64_def maxDouble_def div64_def mul64_def)
  have w: "mul64 (div64 150 612) 612 = Finite 150"
    by (simp add: round64_def exponent64_def binaryExponent_def compute_bitlen
        roundTiesToEven_def Let_def power_int_minus fl64_def maxDouble_def div64_def mul64_def)
  have h: "mul64 (div64 26 792) 792 = Finite (26 + 1 / 2 ^ 48)"
    by (simp add: round64_def exponent64_def binaryExponent_def compute_bitlen
        roundTiesToEven_def Let_def power_int_minus fl64_def maxDouble_def div64_def mul64_def)
  have val: "percentageToPixels64 (pixelsToPercentage64 ?r ?d) ?d = finiteRect ?R"
    by (simp add: percentageToPixels64_def pixelsToPercentage64_def finiteRect_def x y w h)
  have "\<exists>r'. percentageToPixels64 (pixelsToPercentage64 ?r ?d) ?d = finiteRect r' \<and>
             rectWithinRelTol r' ?r"
    by (rule roundtrip_within_tolerance) (simp_all add: roundTripRange_def)
  then obtain r' where a: "percentageToPixels64 (pixelsToPercentage64 ?r ?d) ?d = finiteRect r'"
    and b: "rectWithinRelTol r' ?r" by blast
  from a val have "finiteRect r' = finiteRect ?R" by simp
  hence "rect_x r' = 21 + 1 / 2 ^ 48 \<and> rect_y r' = 13 + 1 / 2 ^ 49 \<and>
         rect_w r' = 150 \<and> rect_h r' = 26 + 1 / 2 ^ 48"
    by (simp add: finiteRect_def)
  with b have "rectWithinRelTol ?R ?r" by (simp add: rectWithinRelTol_def)
  with val show ?thesis by simp
qed

text \<open>
  C2 as stated speaks of every pixel rectangle.  The smallest positive binary64
  number \<open>2\<^sup>-\<^sup>1\<^sup>0\<^sup>7\<^sup>4\<close> (\<^verbatim>\<open>5e-324\<close>) divided by a page width of 600 rounds to zero,
  and zero times 600 is zero: the rectangle \<open>(2\<^sup>-\<^sup>1\<^sup>0\<^sup>7\<^sup>4, 200, 300, 100)\<close> on a page of
  600 by 800 comes back as \<open>(0, 200, 300, 100)\<close>, a relative error of 1 in \<open>x\<close>.  At
  the other end \<open>2\<^sup>1\<^sup>0\<^sup>2\<^sup>3\<close> divided by a page width of \<open>1/2\<close> overflows, and the
  round trip returns no finite number.
\<close>

theorem roundtrip_underflow_counterexample:
  "percentageToPixels64
     (pixelsToPercentage64 (mkRect (1 / 2 ^ 1074) 200 300 100) \<lparr> width = 600, height = 800 \<rparr>)
     \<lparr> width = 600, height = 800 \<rparr>
   = finiteRect (mkRect 0 200 300 100) \<and>
   \<not> rectWithinRelTol (mkRect 0 200 300 100) (mkRect (1 / 2 ^ 1074) 200 300 100) \<and>
   drect_x (percentageToPixels64
     (pixelsToPercentage64 (mkRect (2 ^ 1023) 200 300 100) \<lparr> width = 1 / 2, height = 800 \<rparr>)
     \<lparr> width = 1 / 2, height = 800 \<rparr>) = NonFinite"
proof -
  have "exponent64 (1 / 2 ^ 1074 / 600) = - 1022"
    by (rule exponent64_subnormal) simp_all
  hence "round64 (1 / 2 ^ 1074 / 600) = 0"
    by (simp add: round64_def roundTiesToEven_def Let_def power_int_minus)
  hence x: "mul64 (div64 (1 / 2 ^ 1074) 600) 600 = Finite 0"
    by (simp add: div64_def mul64_def fl64_def maxDouble_def round64_def)
  have y: "mul64 (div64 200 800) 800 = Finite 200"
    by (simp add: round64_def exponent64_def binaryExponent_def compute_bitlen
        roundTiesToEven_def Let_def power_int_minus fl64_def maxDouble_def div64_def mul64_def)
  have w: "mul64 (div64 300 600) 600 = Finite 300"
    by (simp add: round64_def exponent64_def binaryExponent_def compute_bitlen
        roundTiesToEven_def Let_def power_int_minus fl64_def maxDouble_def div64_def mul64_def)
  have h: "mul64 (div64 100 800) 800 = Finite 100"
    by (simp add: round64_def exponent64_def binaryExponent_def compute_bitlen
        roundTiesToEven_def Let_def power_int_minus fl64_def maxDouble_def div64_def mul64_def)
  have under: "percentageToPixels64
     (pixelsToPercentage64 (mkRect (1 / 2 ^ 1074) 200 300 100) \<lparr> width = 600, height = 800 \<rparr>)
     \<lparr> width = 600, height = 800 \<rparr> = finiteRect (mkRect 0 200 300 100)"
    using x by (simp add: percentageToPixels64_def pixelsToPercentage64_def finiteRect_def y w h)
  have far: "\<not> rectWithinRelTol (mkRect 0 200 300 100) (mkRect (1 / 2 ^ 1074) 200 300 100)"
    by (simp add: rectWithinRelTol_def withinRelTol_def)
  have "binaryExponent (2 ^ 1024) = 1024"
    by (rule binaryExponent_unique) (simp_all add: power_int_def)
  hence "round64 (2 ^ 1024) = 2 ^ 1024"
    by (simp add: round64_def exponent64_def roundTiesToEven_def Let_def power_int_def)
  hence "fl64 (2 ^ 1024) = NonFinite"
    by (simp add: fl64_def maxDouble_def)
  hence "div64 (2 ^ 1023) (1 / 2) = NonFinite"
    by (simp add: div64_def)
  hence over: "drect_x (percentageToPixels64
     (pixelsToPercentage64 (mkRect (2 ^ 1023) 200 300 100) \<lparr> width = 1 / 2, height = 800 \<rparr>)
     \<lparr> width = 1 / 2, height = 800 \<rparr>) = NonFinite"
    by (simp add: percentageToPixels64_def pixelsToPercentage64_def mul64_def)
  from under far over show ?thesis by simp
qed

text \<open>
  C3, as the code has it.  \<^verbatim>\<open>percentageToPDFCoords\<close> scales the rectangle to points
  and keeps the orientation of the vertical axis: \<open>x0 = x\<cdot>W\<close>, \<open>y0 = y\<cdot>H\<close>,
  \<open>x1 = (x + w)\<cdot>W\<close> and \<open>y1 = (y + h)\<cdot>H\<close>.  The lower edge is computed from the
  height \<open>h\<close> of the rectangle, not from its width.
\<close>

theorem percentageToPDFCoords_corners:
  "percentageToPDFCoords r d =
     \<lparr> pdf_x0 = rect_x r * width d,
       pdf_y0 = rect_y r * height d,
       pdf_x1 = (rect_x r + rect_w r) * width d,
       pdf_y1 = (rect_y r + rect_h r) * height d \<rparr>"
  by (simp add: percentageToPDFCoords_def)

theorem percentageToPDFCoords_corners_witness:
  "percentageToPDFCoords \<lparr> rect_x = 1/10, rect_y = 1/5, rect_w = 3/10, rect_h = 1/20 \<rparr>
     \<lparr> width = 600, height = 800 \<rparr>
   = \<lparr> pdf_x0 = 60, pdf_y0 = 160, pdf_x1 = 240, pdf_y1 = 200 \<rparr>"
  using percentageToPDFCoords_corners
    [of "\<lparr> rect_x = 1/10, rect_y = 1/5, rect_w = 3/10, rect_h = 1/20 \<rparr>" "\<lparr> width = 600, height = 800 \<rparr>"]
  by simp

text \<open>
  C3 as stated has \<open>y1 = (y + w)\<cdot>H\<close>.  For the rectangle with \<open>y = 0\<close>,
  \<open>w = 1/2\<close> and \<open>h = 1/4\<close> on a page of height 100 the code yields \<open>y1 = 25\<close>,
  where \<open>(y + w)\<cdot>H\<close> is 50.
\<close>

theorem percentageToPDFCoords_y1_counterexample:
  "pdf_y1 (percentageToPDFCoords \<lparr> rect_x = 0, rect_y = 0, rect_w = 1/2, rect_h = 1/4 \<rparr>
             \<lparr> width = 100, height = 100 \<rparr>)
   \<noteq> (rect_y \<lparr> rect_x = 0, rect_y = 0, rect_w = 1/2, rect_h = 1/4 \<rparr>
        + rect_w \<lparr> rect_x = 0, rect_y = 0, rect_w = 1/2, rect_h = 1/4 \<rparr>)
       * height \<lparr> width = 100, height = (100::real) \<rparr>"
  by (simp add: percentageToPDFCoords_def)

section \<open>Clamping and dragging\<close>

lemma applyUpdates_rect_only:
  "applyUpdates f (noUpdates\<lparr> upd_rect := Some r \<rparr>) = f\<lparr> field_rect := r \<rparr>"
  by (simp add: applyUpdates_def noUpdates_def)

text \<open>
  C10.  \<^verbatim>\<open>clamp(value, min, max)\<close> is \<^verbatim>\<open>Math.min(Math.max(value, min), max)\<close>, so it
  returns \<open>max\<close> whenever \<open>min > max\<close>, whatever the value.  A move drag of a
  rectangle wider than the page therefore computes \<open>x = pageWidth - w\<close>, a negative
  coordinate, and likewise \<open>y = pageHeight - h\<close> for one higher than the page.  The
  handler does not fail and does not leave the rectangle as it was: after the
  mouse-move every field of the store with the dragged field's id has the rectangle
  with \<open>x = (pageWidth - w) / pageWidth\<close>, a negative number (and
  \<open>y = (pageHeight - h) / pageHeight\<close> for the height), and every other field is
  unchanged.
\<close>

theorem clamp_inverted_bounds:
  "clamp v lo hi = min (max v lo) hi \<and>
   (hi < lo \<longrightarrow> clamp v lo hi = hi) \<and>
   (width dims < rect_w initial \<longrightarrow>
      rect_x (dragNewRect Move initial dims deltaX deltaY) = width dims - rect_w initial \<and>
      rect_x (dragNewRect Move initial dims deltaX deltaY) < 0) \<and>
   (height dims < rect_h initial \<longrightarrow>
      rect_y (dragNewRect Move initial dims deltaX deltaY) = height dims - rect_h initial \<and>
      rect_y (dragNewRect Move initial dims deltaX deltaY) < 0) \<and>
   (dragMode c = Move \<and> 0 < width dims \<and> width dims < rect_w (initialRect c) \<longrightarrow>
      store_fields (snd (FieldRectangle_handleMouseMove field dims clientX clientY (c, s))) =
        map (\<lambda>f. if field_id f = field_id field
                 then f\<lparr> field_rect :=
                        \<lparr> rect_x = (width dims - rect_w (initialRect c)) / width dims,
                          rect_y = clamp (rect_y (initialRect c) + (clientY - dragStart_y c)) 0
                                     (height dims - rect_h (initialRect c)) / height dims,
                          rect_w = rect_w (initialRect c) / width dims,
                          rect_h = rect_h (initialRect c) / height dims \<rparr> \<rparr>
                 else f)
          (store_fields s) \<and>
      (width dims - rect_w (initialRect c)) / width dims < 0) \<and>
   (dragMode c = Move \<and> 0 < height dims \<and> height dims < rect_h (initialRect c) \<longrightarrow>
      store_fields (snd (FieldRectangle_handleMouseMove field dims clientX clientY (c, s))) =
        map (\<lambda>f. if field_id f = field_id field
                 then f\<lparr> field_rect :=
                        \<lparr> rect_x = clamp (rect_x (initialRect c) + (clientX - dragStart_x c)) 0
                                     (width dims - rect_w (initialRect c)) / width dims,
                          rect_y = (height dims - rect_h (initialRect c)) / height dims,
                          rect_w = rect_w (initialRect c) / width dims,
                          rect_h = rect_h (initialRect c) / height dims \<rparr> \<rparr>
                 else f)
          (store_fields s) \<and>
      (height dims - rect_h (initialRect c)) / height dims < 0)"
proof (intro conjI impI)
  show "clamp v lo hi = min (max v lo) hi"
    by (simp add: clamp_def)
  show "clamp v lo hi = hi" if "hi < lo"
    using that by (simp add: clamp_def)
  show "rect_x (dragNewRect Move initial dims deltaX deltaY) = width dims - rect_w initial"
    if "width dims < rect_w initial"
    using that by (simp add: dragNewRect_def clamp_def)
  show "rect_x (dragNewRect Move initial dims deltaX deltaY) < 0"
    if "width dims < rect_w initial"
    using that by (simp add: dragNewRect_def clamp_def)
  show "rect_y (dragNewRect Move initial dims deltaX deltaY) = height dims - rect_h initial"
    if "height dims < rect_h initial"
    using that by (simp add: dragNewRect_def clamp_def)
  show "rect_y (dragNewRect Move initial dims deltaX deltaY) < 0"
    if "height dims < rect_h initial"
    using that by (simp add: dragNewRect_def clamp_def)
next
  assume a: "dragMode c = Move \<and> 0 < width dims \<and> width dims < rect_w (initialRect c)"
  then have cl: "clamp (rect_x (initialRect c) + (clientX - dragStart_x c)) 0
                   (width dims - rect_w (initialRect c)) = width dims - rect_w (initialRect c)"
    by (auto simp: clamp_def)
  from a show "store_fields (snd (FieldRectangle_handleMouseMove field dims clientX clientY (c, s))) =
        map (\<lambda>f. if field_id f = field_id field
                 then f\<lparr> field_rect :=
                        \<lparr> rect_x = (width dims - rect_w (initialRect c)) / width dims,
                          rect_y = clamp (rect_y (initialRect c) + (clientY - dragStart_y c)) 0
                                     (height dims - rect_h (initialRect c)) / height dims,
                          rect_w = rect_w (initialRect c) / width dims,
                          rect_h = rect_h (initialRect c) / height dims \<rparr> \<rparr>
                 else f)
          (store_fields s)"
    unfolding FieldRectangle_handleMouseMove_def updateField_def applyUpdates_rect_only
      pixelsToPercentage_def dragNewRect_def
    by (simp add: cl Let_def)
  from a show "(width dims - rect_w (initialRect c)) / width dims < 0"
    by (simp add: divide_neg_pos)
next
  assume a: "dragMode c = Move \<and> 0 < height dims \<and> height dims < rect_h (initialRect c)"
  then have cl: "clamp (rect_y (initialRect c) + (clientY - dragStart_y c)) 0
                   (height dims - rect_h (initialRect c)) = height dims - rect_h (initialRect c)"
    by (auto simp: clamp_def)
  from a show "store_fields (snd (FieldRectangle_handleMouseMove field dims clientX clientY (c, s))) =
        map (\<lambda>f. if field_id f = field_id field
                 then f\<lparr> field_rect :=
                        \<lparr> rect_x = clamp (rect_x (initialRect c) + (clientX - dragStart_x c)) 0
                                     (width dims - rect_w (initialRect c)) / width dims,
                          rect_y = (height dims - rect_h (initialRect c)) / height dims,
                          rect_w = rect_w (initialRect c) / width dims,
                          rect_h = rect_h (initialRect c) / height dims \<rparr> \<rparr>
                 else f)
          (store_fields s)"
    unfolding FieldRectangle_handleMouseMove_def updateField_def applyUpdates_rect_only
      pixelsToPercentage_def dragNewRect_def
    by (simp add: cl Let_def)
  from a show "(height dims - rect_h (initialRect c)) / height dims < 0"
    by (simp add: divide_neg_pos)
qed

theorem clamp_inverted_bounds_witness:
  "clamp 15 0 (-100) = -100 \<and>
   map field_rect (store_fields (snd
     (FieldRectangle_handleMouseMove
        (mkField ''f1'' ''wide'' Text 1 (mkRect (1/60) (1/80) (7/6) (1/16)))
        \<lparr> width = 600, height = 800 \<rparr> 105 105
        (\<lparr> dragMode = Move, dragStart_x = 100, dragStart_y = 100,
           initialRect = mkRect 10 10 700 50, isEditing = False \<rparr>,
         initialState
           \<lparr> store_fields := [mkField ''f1'' ''wide'' Text 1 (mkRect (1/60) (1/80) (7/6) (1/16)),
                              mkField ''f2'' ''other'' Text 1 (mkRect (1/10) (1/2) (1/5) (1/16))],
             pageDimensions := [1 \<mapsto> \<lparr> width = 600, height = 800 \<rparr>] \<rparr>))))
   = [mkRect (- (1/6)) (3/160) (7/6) (1/16), mkRect (1/10) (1/2) (1/5) (1/16)]"
  using clamp_inverted_bounds
    [where v = 15 and lo = 0 and hi = "-100" and dims = "\<lparr> width = 600, height = 800 \<rparr>"
       and c = "\<lparr> dragMode = Move, dragStart_x = 100, dragStart_y = 100,
           initialRect = mkRect 10 10 700 50, isEditing = False \<rparr>"
       and field = "mkField ''f1'' ''wide'' Text 1 (mkRect (1/60) (1/80) (7/6) (1/16))"
       and clientX = 105 and clientY = 105
       and s = "initialState
           \<lparr> store_fields := [mkField ''f1'' ''wide'' Text 1 (mkRect (1/60) (1/80) (7/6) (1/16)),
                              mkField ''f2'' ''other'' Text 1 (mkRect (1/10) (1/2) (1/5) (1/16))],
             pageDimensions := [1 \<mapsto> \<lparr> width = 600, height = 800 \<rparr>] \<rparr>"]
  by (simp add: initialState_def clamp_def)

text \<open>
  C1 at a field the drawing gesture accepts.  The field \<open>{x = 0, y = 0.1, w = 0.02,
  h = 0.05}\<close> on a page of 600 by 800 pixels lies within the page and is a valid field
  (12 pixels wide, one per cent of the width being 6).  The user presses the
  south-west handle, moves the pointer five pixels to the left and releases.  The new
  left edge is \<^verbatim>\<open>clamp(-5, 0, 0 + 12 - MIN_SIZE)\<close> with \<^verbatim>\<open>MIN_SIZE = 20\<close>, that is
  \<open>-8\<close>, and the field is stored with \<open>x = -8/600\<close>: it is no longer within the
  page.  Fields of at least \<^verbatim>\<open>MIN_SIZE\<close> pixels in both dimensions keep the
  invariant; the section on dragging a field of at least the minimum size proves it.
\<close>

theorem resize_sw_small_field_leaves_page:
  "inPageBounds \<lparr> rect_x = 0, rect_y = 1/10, rect_w = 1/50, rect_h = 1/20 \<rparr> \<and>
   isValidFieldSize \<lparr> rect_x = 0, rect_y = 1/10, rect_w = 1/50, rect_h = 1/20 \<rparr> \<and>
   map field_rect (store_fields (snd
     (rectangleEvents ''f1'' [MouseDown ResizeSW 0 120, MouseMove (-5) 120, MouseUp]
        (initialRectangleState \<lparr> rect_x = 0, rect_y = 80, rect_w = 12, rect_h = 40 \<rparr>,
         initialState
           \<lparr> store_fields :=
               [\<lparr> field_id = ''f1'', field_key = ''field_1'', field_type = Text, page_number = 1,
                  fontSize = None,
                  field_rect = \<lparr> rect_x = 0, rect_y = 1/10, rect_w = 1/50, rect_h = 1/20 \<rparr> \<rparr>],
             pageDimensions := [1 \<mapsto> \<lparr> width = 600, height = 800 \<rparr>] \<rparr>))))
   = [\<lparr> rect_x = - (1/75), rect_y = 1/10, rect_w = 1/30, rect_h = 1/20 \<rparr>] \<and>
   \<not> inPageBounds \<lparr> rect_x = - (1/75), rect_y = 1/10, rect_w = 1/30, rect_h = 1/20 \<rparr>"
  by (simp add: inPageBounds_def isValidFieldSize_def MIN_FIELD_SIZE_PERCENT_def
      rectangleEvents_def rectangleEvent_def initialState_def initialRectangleState_def
      FieldRectangle_handleMouseDown_def FieldRectangle_handleMouseMove_def
      FieldRectangle_handleMouseUp_def setSelectedFieldId_def updateField_def applyUpdates_def
      noUpdates_def percentageToPixels_def pixelsToPercentage_def dragNewRect_def clamp_def
      MIN_SIZE_def)

section \<open>Field registry\<close>

lemma applyUpdates_id: "upd_id u = None \<Longrightarrow> field_id (applyUpdates f u) = field_id f"
  by (simp add: applyUpdates_def)

lemma addField_consistent: "selectionConsistent s \<Longrightarrow> selectionConsistent (addField f s)"
  by (auto simp: selectionConsistent_def addField_def split: option.splits)

lemma updateField_ids:
  "upd_id u = None \<Longrightarrow> map field_id (store_fields (updateField i u s)) = map field_id (store_fields s)"
  by (simp add: updateField_def applyUpdates_id)

lemma updateField_consistent:
  "upd_id u = None \<Longrightarrow> selectionConsistent s \<Longrightarrow> selectionConsistent (updateField i u s)"
proof -
  assume u: "upd_id u = None" and c: "selectionConsistent s"
  have sel: "selectedFieldId (updateField i u s) = selectedFieldId s"
    by (simp add: updateField_def)
  show ?thesis
    using c unfolding selectionConsistent_def sel updateField_ids [OF u] .
qed

lemma removeField_consistent: "selectionConsistent s \<Longrightarrow> selectionConsistent (removeField i s)"
  by (auto simp: selectionConsistent_def removeField_def split: option.splits)

text \<open>
  C4, as the code has it.  If the selection is empty or names a field of the registry,
  it still does after \<^verbatim>\<open>addField\<close>, after \<^verbatim>\<open>removeField\<close>, after \<^verbatim>\<open>updateField\<close>
  with an update that carries no \<^verbatim>\<open>id\<close>, and after \<^verbatim>\<open>setFields\<close> with a list that
  holds the selected id.  \<^verbatim>\<open>removeField\<close> of the selected id empties the selection,
  and \<^verbatim>\<open>removeField\<close> of any other id leaves the selection as it was.
\<close>

theorem registry_selection_consistent:
  assumes "selectionConsistent s"
  shows "selectionConsistent (addField f s) \<and>
         (upd_id u = None \<longrightarrow> selectionConsistent (updateField i u s)) \<and>
         selectionConsistent (removeField i s) \<and>
         ((\<forall>j. selectedFieldId s = Some j \<longrightarrow> j \<in> set (map field_id fs)) \<longrightarrow>
            selectionConsistent (setFields fs s)) \<and>
         (selectedFieldId s = Some i \<longrightarrow> selectedFieldId (removeField i s) = None) \<and>
         (selectedFieldId s \<noteq> Some i \<longrightarrow> selectedFieldId (removeField i s) = selectedFieldId s)"
proof -
  have "(\<forall>j. selectedFieldId s = Some j \<longrightarrow> j \<in> set (map field_id fs)) \<longrightarrow>
            selectionConsistent (setFields fs s)"
    by (auto simp: selectionConsistent_def setFields_def split: option.splits)
  moreover have "selectedFieldId s = Some i \<longrightarrow> selectedFieldId (removeField i s) = None"
    by (simp add: removeField_def)
  moreover have "selectedFieldId s \<noteq> Some i \<longrightarrow> selectedFieldId (removeField i s) = selectedFieldId s"
    by (simp add: removeField_def)
  ultimately show ?thesis
    using assms addField_consistent updateField_consistent removeField_consistent by blast
qed

theorem registry_selection_consistent_witness:
  "selectionConsistent
     (initialState\<lparr> store_fields := [mkField ''a'' ''name'' Text 1 (mkRect 0 0 (1/2) (1/10)),
                                      mkField ''b'' ''date'' Date 1 (mkRect 0 (1/2) (1/2) (1/10))],
                    selectedFieldId := Some ''a'' \<rparr>) \<and>
   selectedFieldId (removeField ''a''
     (initialState\<lparr> store_fields := [mkField ''a'' ''name'' Text 1 (mkRect 0 0 (1/2) (1/10)),
                                      mkField ''b'' ''date'' Date 1 (mkRect 0 (1/2) (1/2) (1/10))],
                    selectedFieldId := Some ''a'' \<rparr>)) = None \<and>
   selectedFieldId (removeField ''b''
     (initialState\<lparr> store_fields := [mkField ''a'' ''name'' Text 1 (mkRect 0 0 (1/2) (1/10)),
                                      mkField ''b'' ''date'' Date 1 (mkRect 0 (1/2) (1/2) (1/10))],
                    selectedFieldId := Some ''a'' \<rparr>)) = Some ''a'' \<and>
   selectionConsistent (removeField ''b''
     (initialState\<lparr> store_fields := [mkField ''a'' ''name'' Text 1 (mkRect 0 0 (1/2) (1/10)),
                                      mkField ''b'' ''date'' Date 1 (mkRect 0 (1/2) (1/2) (1/10))],
                    selectedFieldId := Some ''a'' \<rparr>))"
  using registry_selection_consistent
    [of "initialState\<lparr> store_fields := [mkField ''a'' ''name'' Text 1 (mkRect 0 0 (1/2) (1/10)),
                                      mkField ''b'' ''date'' Date 1 (mkRect 0 (1/2) (1/2) (1/10))],
                    selectedFieldId := Some ''a'' \<rparr>" _ _ "''b''"]
    registry_selection_consistent
    [of "initialState\<lparr> store_fields := [mkField ''a'' ''name'' Text 1 (mkRect 0 0 (1/2) (1/10)),
                                      mkField ''b'' ''date'' Date 1 (mkRect 0 (1/2) (1/2) (1/10))],
                    selectedFieldId := Some ''a'' \<rparr>" _ _ "''a''"]
  by (simp add: selectionConsistent_def initialState_def removeField_def)

text \<open>
  C4 as stated fails for \<^verbatim>\<open>setFields\<close>, which replaces the list and leaves
  \<^verbatim>\<open>selectedFieldId\<close> as it was, and for \<^verbatim>\<open>updateField\<close> with an update that
  replaces the \<^verbatim>\<open>id\<close> of the selected field: with the field \<open>a\<close> selected, both
  leave a selection that names no field of the registry.
\<close>

theorem setFields_selection_counterexample:
  "selectionConsistent
     (initialState\<lparr> store_fields := [mkField ''a'' ''name'' Text 1 (mkRect 0 0 (1/2) (1/10))],
                    selectedFieldId := Some ''a'' \<rparr>) \<and>
   \<not> selectionConsistent (setFields [mkField ''g'' ''city'' Text 1 (mkRect 0 0 (1/2) (1/10))]
     (initialState\<lparr> store_fields := [mkField ''a'' ''name'' Text 1 (mkRect 0 0 (1/2) (1/10))],
                    selectedFieldId := Some ''a'' \<rparr>)) \<and>
   \<not> selectionConsistent (updateField ''a'' (noUpdates\<lparr> upd_id := Some ''z'' \<rparr>)
     (initialState\<lparr> store_fields := [mkField ''a'' ''name'' Text 1 (mkRect 0 0 (1/2) (1/10))],
                    selectedFieldId := Some ''a'' \<rparr>))"
  by (simp add: selectionConsistent_def initialState_def setFields_def updateField_def
      applyUpdates_def noUpdates_def)

section \<open>Generation\<close>






lemma String_of_scalar:
  "isScalar v \<Longrightarrow> String_of nts v =
     Inr (case v of JBool b \<Rightarrow> (if b then ''true'' else ''false'') | JNum r \<Rightarrow> nts r | JStr t \<Rightarrow> t)"
  by (cases v) (simp_all add: isScalar_def)




lemma toLowerCase_true_bool: "toLowerCase ''true'' = ''true''" "toLowerCase ''false'' \<noteq> ''true''"
  by (simp_all add: toLowerCase_def toLowerChar_def)

lemma checkbox_condition:
  assumes "\<And>r. v = JNum r \<Longrightarrow> toLowerCase (nts r) \<noteq> ''true''"
    and "isScalar v"
  shows "(\<exists>t. String_of nts v = Inr t \<and> (toLowerCase t = ''true'' \<or> v = JBool True)) \<longleftrightarrow>
         (v = JBool True \<or> (\<exists>t. v = JStr t \<and> toLowerCase t = ''true''))"
  using assms by (cases v) (auto simp: isScalar_def toLowerCase_true_bool)

lemma overlayField_checkbox:
  assumes "field_type f = Checkbox"
    and "data (field_key f) \<noteq> JUndefined" "data (field_key f) \<noteq> JNull" "data (field_key f) \<noteq> JStr []"
    and "1 \<le> page_number f" "page_number f \<le> int (length pages)"
  shows "overlayField nts pages data f =
     (case String_of nts (data (field_key f)) of
        Inl e \<Rightarrow> Inl e
      | Inr t \<Rightarrow>
          if toLowerCase t = ''true'' \<or> data (field_key f) = JBool True
          then Inr [\<lparr> call_page = nat (page_number f - 1),
                      call_text = ''X'',
                      call_x = rect_x (field_rect f) * width (pages ! nat (page_number f - 1)) + 2,
                      call_y = height (pages ! nat (page_number f - 1))
                               - rect_y (field_rect f) * height (pages ! nat (page_number f - 1))
                               - fontSizeMap (case fontSize f of None \<Rightarrow> Medium | Some fs \<Rightarrow> fs) - 2,
                      call_size = fontSizeMap (case fontSize f of None \<Rightarrow> Medium | Some fs \<Rightarrow> fs),
                      call_maxWidth = None,
                      call_lineHeight = None \<rparr>]
          else Inr [])"
  using assms by (simp add: overlayField_def Let_def split: sum.splits)

lemma overlayField_outside:
  "\<not> (1 \<le> page_number f \<and> page_number f \<le> int (length pages))
   \<Longrightarrow> overlayField nts pages data f = Inr []"
  by (auto simp: overlayField_def Let_def)

text \<open>
  C6, as the code has it.  For a checkbox field with a scalar value (a boolean, a
  number or a string) that is not the empty string, the iteration draws one mark, on
  the page the field names, if the value is the boolean \<open>true\<close> or a string that
  \<^verbatim>\<open>toLowerCase\<close> maps to \<^verbatim>\<open>'true'\<close> and the page number lies within the document; in
  every other case it draws nothing.  The string form of a number comes from the
  runtime; the statement asks of it that the number at hand is not printed as a
  spelling of \<^verbatim>\<open>true\<close>, which no number is.
\<close>

theorem checkbox_strictness:
  assumes "field_type f = Checkbox"
    and "data (field_key f) \<noteq> JUndefined" "data (field_key f) \<noteq> JNull" "data (field_key f) \<noteq> JStr []"
    and "isScalar (data (field_key f))"
    and "\<And>r. data (field_key f) = JNum r \<Longrightarrow> toLowerCase (nts r) \<noteq> ''true''"
  shows "if (data (field_key f) = JBool True \<or> (\<exists>t. data (field_key f) = JStr t \<and> toLowerCase t = ''true''))
            \<and> 1 \<le> page_number f \<and> page_number f \<le> int (length pages)
         then (\<exists>c. overlayField nts pages data f = Inr [c] \<and> isMark c \<and>
                   int (call_page c) + 1 = page_number f)
         else overlayField nts pages data f = Inr []"
proof -
  have cond: "(\<exists>t. String_of nts (data (field_key f)) = Inr t \<and>
                  (toLowerCase t = ''true'' \<or> data (field_key f) = JBool True)) \<longleftrightarrow>
         (data (field_key f) = JBool True \<or> (\<exists>t. data (field_key f) = JStr t \<and> toLowerCase t = ''true''))"
    using assms(6) assms(5) by (rule checkbox_condition)
  obtain t where t: "String_of nts (data (field_key f)) = Inr t"
    using assms(5) by (auto simp: String_of_scalar)
  show ?thesis
  proof (cases "1 \<le> page_number f \<and> page_number f \<le> int (length pages)")
    case inside: True
    then have eq: "overlayField nts pages data f =
        (if toLowerCase t = ''true'' \<or> data (field_key f) = JBool True
          then Inr [\<lparr> call_page = nat (page_number f - 1),
                      call_text = ''X'',
                      call_x = rect_x (field_rect f) * width (pages ! nat (page_number f - 1)) + 2,
                      call_y = height (pages ! nat (page_number f - 1))
                               - rect_y (field_rect f) * height (pages ! nat (page_number f - 1))
                               - fontSizeMap (case fontSize f of None \<Rightarrow> Medium | Some fs \<Rightarrow> fs) - 2,
                      call_size = fontSizeMap (case fontSize f of None \<Rightarrow> Medium | Some fs \<Rightarrow> fs),
                      call_maxWidth = None,
                      call_lineHeight = None \<rparr>]
          else Inr [])"
      using overlayField_checkbox [where f = f and data = data and pages = pages and nts = nts]
        assms(1-4) t by simp
    show ?thesis
    proof (cases "data (field_key f) = JBool True \<or> (\<exists>t. data (field_key f) = JStr t \<and> toLowerCase t = ''true'')")
      case True
      with cond t have "toLowerCase t = ''true'' \<or> data (field_key f) = JBool True"
        by auto
      with eq inside
      have "\<exists>c. overlayField nts pages data f = Inr [c] \<and> isMark c \<and> int (call_page c) + 1 = page_number f"
        by (simp add: isMark_def)
      with True inside show ?thesis by simp
    next
      case False
      with cond t have "\<not> (toLowerCase t = ''true'' \<or> data (field_key f) = JBool True)"
        by auto
      with eq have "overlayField nts pages data f = Inr []"
        by simp
      with False show ?thesis by simp
    qed
  next
    case False
    then have "overlayField nts pages data f = Inr []"
      by (rule overlayField_outside)
    with False show ?thesis by simp
  qed
qed

theorem checkbox_strictness_witness:
  "overlayField (\<lambda>r. natToString (nat \<lfloor>r\<rfloor>)) [\<lparr> width = 600, height = 800 \<rparr>]
     (\<lambda>k. if k = ''c'' then JStr ''TRUE'' else JUndefined)
     (mkField ''f1'' ''c'' Checkbox 1 (mkRect (1/10) (1/5) (1/20) (1/20)))
   = Inr [\<lparr> call_page = 0, call_text = ''X'', call_x = 62, call_y = 629, call_size = 9,
        call_maxWidth = None, call_lineHeight = None \<rparr>] \<and>
   overlayField (\<lambda>r. natToString (nat \<lfloor>r\<rfloor>)) [\<lparr> width = 600, height = 800 \<rparr>]
     (\<lambda>k. if k = ''c'' then JStr ''yes'' else JUndefined)
     (mkField ''f1'' ''c'' Checkbox 1 (mkRect (1/10) (1/5) (1/20) (1/20))) = Inr [] \<and>
   overlayField (\<lambda>r. natToString (nat \<lfloor>r\<rfloor>)) [\<lparr> width = 600, height = 800 \<rparr>]
     (\<lambda>k. if k = ''c'' then JNum 1 else JUndefined)
     (mkField ''f1'' ''c'' Checkbox 1 (mkRect (1/10) (1/5) (1/20) (1/20))) = Inr []"
  using checkbox_strictness
    [where f = "mkField ''f1'' ''c'' Checkbox 1 (mkRect (1/10) (1/5) (1/20) (1/20))"
       and data = "\<lambda>k. if k = ''c'' then JStr ''TRUE'' else JUndefined"
       and pages = "[\<lparr> width = 600, height = 800 \<rparr>]"
       and nts = "\<lambda>r. natToString (nat \<lfloor>r\<rfloor>)"]
    checkbox_strictness
    [where f = "mkField ''f1'' ''c'' Checkbox 1 (mkRect (1/10) (1/5) (1/20) (1/20))"
       and data = "\<lambda>k. if k = ''c'' then JNum 1 else JUndefined"
       and pages = "[\<lparr> width = 600, height = 800 \<rparr>]"
       and nts = "\<lambda>r. natToString (nat \<lfloor>r\<rfloor>)"]
  by (simp add: overlayField_def fontSizeMap_def toLowerCase_def toLowerChar_def
      natToString.simps digitChar_def char_of_eq_iff isScalar_def)

text \<open>
  C6 as stated does not ask for the page to exist.  A checkbox field on page 2 of a
  document of one page, whose value is the boolean \<open>true\<close>, draws nothing: the loop
  skips a field whose page index is outside the document before it looks at the
  type.
\<close>

theorem checkbox_page_range_counterexample:
  "field_type (mkField ''f1'' ''c'' Checkbox 2 (mkRect (1/10) (1/5) (1/20) (1/20))) = Checkbox \<and>
   (\<lambda>k. if k = ''c'' then JBool True else JUndefined)
     (field_key (mkField ''f1'' ''c'' Checkbox 2 (mkRect (1/10) (1/5) (1/20) (1/20)))) = JBool True \<and>
   overlayField (\<lambda>r. natToString (nat \<lfloor>r\<rfloor>)) [\<lparr> width = 600, height = 800 \<rparr>]
     (\<lambda>k. if k = ''c'' then JBool True else JUndefined)
     (mkField ''f1'' ''c'' Checkbox 2 (mkRect (1/10) (1/5) (1/20) (1/20))) = Inr []"
  by (simp add: overlayField_def)

text \<open>
  C7.  Every text instruction an iteration draws for a field with rectangle
  \<open>{x, y, w, h}\<close> on a page of size \<open>W\<close> by \<open>H\<close> has \<open>x = x\<cdot>W + 2\<close>,
  \<open>y = H - y\<cdot>H - fontSizePt - 2\<close>, \<open>maxWidth = w\<cdot>W - 2\<cdot>2\<close>,
  \<open>lineHeight = fontSizePt\<cdot>1.2\<close> and size \<open>fontSizePt\<close>, where \<open>fontSizePt\<close> is 7
  for small, 9 for medium, 12 for large and 9 when the field has no font size.  The
  field \<open>{0.1, 0.2, 0.3, 0.05}\<close> with medium font on a page of 600 by 800 and the
  value \<^verbatim>\<open>"Ada"\<close> yields one text instruction with \<open>x = 62\<close>, \<open>y = 629\<close> and
  \<open>maxWidth = 176\<close>.
\<close>

theorem text_instruction_geometry:
  "(overlayField nts pages data f = Inr calls \<and> c \<in> set calls \<and> isTextInstruction c \<longrightarrow>
      call_x c = rect_x (field_rect f) * width (pages ! nat (page_number f - 1)) + 2 \<and>
      call_y c = height (pages ! nat (page_number f - 1))
                 - rect_y (field_rect f) * height (pages ! nat (page_number f - 1))
                 - (case fontSize f of None \<Rightarrow> 9 | Some Small \<Rightarrow> 7 | Some Medium \<Rightarrow> 9 | Some Large \<Rightarrow> 12)
                 - 2 \<and>
      call_maxWidth c = Some (rect_w (field_rect f) * width (pages ! nat (page_number f - 1)) - 2 * 2) \<and>
      call_lineHeight c =
        Some ((case fontSize f of None \<Rightarrow> 9 | Some Small \<Rightarrow> 7 | Some Medium \<Rightarrow> 9 | Some Large \<Rightarrow> 12) * 1.2) \<and>
      call_size c = (case fontSize f of None \<Rightarrow> 9 | Some Small \<Rightarrow> 7 | Some Medium \<Rightarrow> 9 | Some Large \<Rightarrow> 12)) \<and>
   overlay nts [\<lparr> width = 600, height = 800 \<rparr>]
     (\<lambda>k. if k = ''name'' then JStr ''Ada'' else JUndefined)
     [(mkField i ''name'' Text 1 (mkRect 0.1 0.2 0.3 0.05))\<lparr> fontSize := Some Medium \<rparr>]
   = Inr [\<lparr> call_page = 0, call_text = ''Ada'', call_x = 62, call_y = 629, call_size = 9,
        call_maxWidth = Some 176, call_lineHeight = Some 10.8 \<rparr>]"
proof (intro conjI impI)
  assume a: "overlayField nts pages data f = Inr calls \<and> c \<in> set calls \<and> isTextInstruction c"
  then have nc: "field_type f \<noteq> Checkbox"
    by (auto simp: overlayField_def Let_def isTextInstruction_def split: if_splits sum.splits)
  from a have c: "overlayField nts pages data f = Inr [c]"
    by (auto simp: overlayField_def Let_def isTextInstruction_def split: if_splits sum.splits)
  have pt: "fontSizeMap (case fontSize f of None \<Rightarrow> Medium | Some fs \<Rightarrow> fs)
          = (case fontSize f of None \<Rightarrow> 9 | Some Small \<Rightarrow> 7 | Some Medium \<Rightarrow> 9 | Some Large \<Rightarrow> 12)"
    by (simp add: fontSizeMap_def split: option.splits FontSize.splits)
  from c nc show "call_x c = rect_x (field_rect f) * width (pages ! nat (page_number f - 1)) + 2"
    by (auto simp: overlayField_def Let_def split: if_splits sum.splits)
  from c nc show "call_y c = height (pages ! nat (page_number f - 1))
                 - rect_y (field_rect f) * height (pages ! nat (page_number f - 1))
                 - (case fontSize f of None \<Rightarrow> 9 | Some Small \<Rightarrow> 7 | Some Medium \<Rightarrow> 9 | Some Large \<Rightarrow> 12)
                 - 2"
    unfolding pt [symmetric] by (auto simp: overlayField_def Let_def split: if_splits sum.splits)
  from c nc show "call_maxWidth c = Some (rect_w (field_rect f) * width (pages ! nat (page_number f - 1)) - 2 * 2)"
    by (auto simp: overlayField_def Let_def split: if_splits sum.splits)
  from c nc show "call_lineHeight c =
        Some ((case fontSize f of None \<Rightarrow> 9 | Some Small \<Rightarrow> 7 | Some Medium \<Rightarrow> 9 | Some Large \<Rightarrow> 12) * 1.2)"
    unfolding pt [symmetric] by (auto simp: overlayField_def Let_def split: if_splits sum.splits)
  from c nc show "call_size c = (case fontSize f of None \<Rightarrow> 9 | Some Small \<Rightarrow> 7 | Some Medium \<Rightarrow> 9 | Some Large \<Rightarrow> 12)"
    unfolding pt [symmetric] by (auto simp: overlayField_def Let_def split: if_splits sum.splits)
next
  show "overlay nts [\<lparr> width = 600, height = 800 \<rparr>]
     (\<lambda>k. if k = ''name'' then JStr ''Ada'' else JUndefined)
     [(mkField i ''name'' Text 1 (mkRect 0.1 0.2 0.3 0.05))\<lparr> fontSize := Some Medium \<rparr>]
   = Inr [\<lparr> call_page = 0, call_text = ''Ada'', call_x = 62, call_y = 629, call_size = 9,
        call_maxWidth = Some 176, call_lineHeight = Some 10.8 \<rparr>]"
    by (simp add: overlayField_def fontSizeMap_def)
qed

theorem text_instruction_geometry_witness:
  "overlayField (\<lambda>r. natToString (nat \<lfloor>r\<rfloor>)) [\<lparr> width = 600, height = 800 \<rparr>]
     (\<lambda>k. if k = ''name'' then JStr ''Ada'' else JUndefined)
     ((mkField ''f1'' ''name'' Text 1 (mkRect (1/10) (1/5) (3/10) (1/20)))\<lparr> fontSize := Some Large \<rparr>)
   = Inr [\<lparr> call_page = 0, call_text = ''Ada'', call_x = 62, call_y = 626, call_size = 12,
        call_maxWidth = Some 176, call_lineHeight = Some (72/5) \<rparr>] \<and>
   isTextInstruction \<lparr> call_page = 0, call_text = ''Ada'', call_x = 62, call_y = 626, call_size = 12,
        call_maxWidth = Some 176, call_lineHeight = Some (72/5) \<rparr>"
  using text_instruction_geometry
    [where f = "(mkField ''f1'' ''name'' Text 1 (mkRect (1/10) (1/5) (3/10) (1/20)))\<lparr> fontSize := Some Large \<rparr>"
       and data = "\<lambda>k. if k = ''name'' then JStr ''Ada'' else JUndefined"
       and pages = "[\<lparr> width = 600, height = 800 \<rparr>]"
       and nts = "\<lambda>r. natToString (nat \<lfloor>r\<rfloor>)"
       and calls = "[\<lparr> call_page = 0, call_text = ''Ada'', call_x = 62, call_y = 626, call_size = 12,
        call_maxWidth = Some 176, call_lineHeight = Some (72/5) \<rparr>]"
       and c = "\<lparr> call_page = 0, call_text = ''Ada'', call_x = 62, call_y = 626, call_size = 12,
        call_maxWidth = Some 176, call_lineHeight = Some (72/5) \<rparr>"]
  by (simp add: overlayField_def fontSizeMap_def isTextInstruction_def)

text \<open>
  Values outside \<^verbatim>\<open>GenerationData\<close>.  \<^verbatim>\<open>JSON.parse\<close> accepts every JSON text, so
  a record can hold an array or an object.  For the object \<^verbatim>\<open>{"toString": 1}\<close> the
  conversion \<^verbatim>\<open>String(value)\<close> raises a \<^verbatim>\<open>TypeError\<close> and the generation stops
  without a document.  For the array \<^verbatim>\<open>["TRUE"]\<close> it returns \<^verbatim>\<open>"TRUE"\<close>, and a
  checkbox field draws its mark.
\<close>

lemma overlayField_nonscalar_values:
  "overlayField (\<lambda>r. natToString (nat \<lfloor>r\<rfloor>)) [\<lparr> width = 600, height = 800 \<rparr>]
     (\<lambda>k. if k = ''x'' then JObj [(''toString'', JNum 1)] else JUndefined)
     (mkField ''f1'' ''x'' Text 1 (mkRect (1/10) (1/5) (3/10) (1/20))) = Inl TypeError \<and>
   overlay (\<lambda>r. natToString (nat \<lfloor>r\<rfloor>)) [\<lparr> width = 600, height = 800 \<rparr>]
     (\<lambda>k. if k = ''x'' then JObj [(''toString'', JNum 1)] else JUndefined)
     [mkField ''f1'' ''x'' Text 1 (mkRect (1/10) (1/5) (3/10) (1/20))] = Inl TypeError \<and>
   overlayField (\<lambda>r. natToString (nat \<lfloor>r\<rfloor>)) [\<lparr> width = 600, height = 800 \<rparr>]
     (\<lambda>k. if k = ''c'' then JArr [JStr ''TRUE''] else JUndefined)
     (mkField ''f1'' ''c'' Checkbox 1 (mkRect (1/10) (1/5) (1/20) (1/20)))
   = Inr [\<lparr> call_page = 0, call_text = ''X'', call_x = 62, call_y = 629, call_size = 9,
        call_maxWidth = None, call_lineHeight = None \<rparr>]"
  by (simp add: overlayField_def fontSizeMap_def toLowerCase_def toLowerChar_def char_of_eq_iff)

section \<open>Drawing gesture\<close>

lemma handleMouseUp_resets:
  "drawingState (FieldOverlay_handleMouseUp pn newId s) = initialDrawingState"
  by (simp add: FieldOverlay_handleMouseUp_def resetDrawingState_def Let_def split: option.splits)

text \<open>
  C8.  A drawing gesture is active on the page of the overlay, and the page has
  dimensions.  On pointer-up the normalized rectangle \<open>r\<close> is
  \<^verbatim>\<open>pixelsToPercentage(normalizeRect(start, current), dimensions)\<close>.  If
  \<open>r.w \<ge> 0.01\<close> and \<open>r.h \<ge> 0.01\<close>, one field is appended to the registry, with
  the generated id, the key \<^verbatim>\<open>field_\<close> followed by the new length of the list, the
  type text, the page of the overlay and the rectangle \<open>r\<close>, and it is selected.
  Otherwise the field list and the selection are as before.  In both cases the
  drawing state is reset (as it is on every pointer-up, by \<open>handleMouseUp_resets\<close>).
\<close>

theorem drawing_gesture_completes:
  assumes "isDrawing (drawingState s)"
    and "pageNumber (drawingState s) = pn"
    and "pageDimensions s pn = Some d"
    and "r = pixelsToPercentage
               (normalizeRect (startX (drawingState s)) (startY (drawingState s))
                  (currentX (drawingState s)) (currentY (drawingState s))) d"
  shows "r = \<lparr> rect_x = min (startX (drawingState s)) (currentX (drawingState s)) / width d,
               rect_y = min (startY (drawingState s)) (currentY (drawingState s)) / height d,
               rect_w = \<bar>currentX (drawingState s) - startX (drawingState s)\<bar> / width d,
               rect_h = \<bar>currentY (drawingState s) - startY (drawingState s)\<bar> / height d \<rparr> \<and>
         (if rect_w r \<ge> 0.01 \<and> rect_h r \<ge> 0.01
          then store_fields (FieldOverlay_handleMouseUp pn newId s) =
                 store_fields s @
                   [\<lparr> field_id = newId,
                      field_key = ''field_'' @ natToString (length (store_fields s) + 1),
                      field_type = Text, page_number = pn, fontSize = None, field_rect = r \<rparr>] \<and>
               selectedFieldId (FieldOverlay_handleMouseUp pn newId s) = Some newId
          else store_fields (FieldOverlay_handleMouseUp pn newId s) = store_fields s \<and>
               selectedFieldId (FieldOverlay_handleMouseUp pn newId s) = selectedFieldId s) \<and>
         drawingState (FieldOverlay_handleMouseUp pn newId s) = initialDrawingState \<and>
         pageDimensions (FieldOverlay_handleMouseUp pn newId s) = pageDimensions s"
proof (intro conjI)
  show "r = \<lparr> rect_x = min (startX (drawingState s)) (currentX (drawingState s)) / width d,
               rect_y = min (startY (drawingState s)) (currentY (drawingState s)) / height d,
               rect_w = \<bar>currentX (drawingState s) - startX (drawingState s)\<bar> / width d,
               rect_h = \<bar>currentY (drawingState s) - startY (drawingState s)\<bar> / height d \<rparr>"
    using assms(4) by (simp add: pixelsToPercentage_def normalizeRect_def)
next
  have valid: "isValidFieldSize r \<longleftrightarrow> rect_w r \<ge> 0.01 \<and> rect_h r \<ge> 0.01"
    by (simp add: isValidFieldSize_def MIN_FIELD_SIZE_PERCENT_def)
  show "if rect_w r \<ge> 0.01 \<and> rect_h r \<ge> 0.01
          then store_fields (FieldOverlay_handleMouseUp pn newId s) =
                 store_fields s @
                   [\<lparr> field_id = newId,
                      field_key = ''field_'' @ natToString (length (store_fields s) + 1),
                      field_type = Text, page_number = pn, fontSize = None, field_rect = r \<rparr>] \<and>
               selectedFieldId (FieldOverlay_handleMouseUp pn newId s) = Some newId
          else store_fields (FieldOverlay_handleMouseUp pn newId s) = store_fields s \<and>
               selectedFieldId (FieldOverlay_handleMouseUp pn newId s) = selectedFieldId s"
    using assms valid
    by (simp add: FieldOverlay_handleMouseUp_def resetDrawingState_def setSelectedFieldId_def
        addField_def Let_def)
next
  show "drawingState (FieldOverlay_handleMouseUp pn newId s) = initialDrawingState"
    by (rule handleMouseUp_resets)
next
  show "pageDimensions (FieldOverlay_handleMouseUp pn newId s) = pageDimensions s"
    by (simp add: FieldOverlay_handleMouseUp_def resetDrawingState_def setSelectedFieldId_def
        addField_def Let_def split: option.splits)
qed

theorem drawing_gesture_completes_witness:
  "store_fields (FieldOverlay_handleMouseUp 1 ''f_new''
     (initialState
        \<lparr> drawingState := \<lparr> isDrawing = True, startX = 240, startY = 200, currentX = 60,
                             currentY = 160, pageNumber = 1 \<rparr>,
          pageDimensions := [1 \<mapsto> \<lparr> width = 600, height = 800 \<rparr>] \<rparr>))
   = [mkField ''f_new'' ''field_1'' Text 1 (mkRect (1/10) (1/5) (3/10) (1/20))] \<and>
   selectedFieldId (FieldOverlay_handleMouseUp 1 ''f_new''
     (initialState
        \<lparr> drawingState := \<lparr> isDrawing = True, startX = 240, startY = 200, currentX = 60,
                             currentY = 160, pageNumber = 1 \<rparr>,
          pageDimensions := [1 \<mapsto> \<lparr> width = 600, height = 800 \<rparr>] \<rparr>)) = Some ''f_new'' \<and>
   store_fields (FieldOverlay_handleMouseUp 1 ''f_new''
     (initialState
        \<lparr> drawingState := \<lparr> isDrawing = True, startX = 240, startY = 200, currentX = 243,
                             currentY = 160, pageNumber = 1 \<rparr>,
          pageDimensions := [1 \<mapsto> \<lparr> width = 600, height = 800 \<rparr>] \<rparr>)) = [] \<and>
   drawingState (FieldOverlay_handleMouseUp 1 ''f_new''
     (initialState
        \<lparr> drawingState := \<lparr> isDrawing = True, startX = 240, startY = 200, currentX = 243,
                             currentY = 160, pageNumber = 1 \<rparr>,
          pageDimensions := [1 \<mapsto> \<lparr> width = 600, height = 800 \<rparr>] \<rparr>)) = initialDrawingState"
  using drawing_gesture_completes
    [where s = "initialState
        \<lparr> drawingState := \<lparr> isDrawing = True, startX = 240, startY = 200, currentX = 60,
                             currentY = 160, pageNumber = 1 \<rparr>,
          pageDimensions := [1 \<mapsto> \<lparr> width = 600, height = 800 \<rparr>] \<rparr>"
       and pn = 1 and d = "\<lparr> width = 600, height = 800 \<rparr>" and newId = "''f_new''"
       and r = "mkRect (1/10) (1/5) (3/10) (1/20)"]
    drawing_gesture_completes
    [where s = "initialState
        \<lparr> drawingState := \<lparr> isDrawing = True, startX = 240, startY = 200, currentX = 243,
                             currentY = 160, pageNumber = 1 \<rparr>,
          pageDimensions := [1 \<mapsto> \<lparr> width = 600, height = 800 \<rparr>] \<rparr>"
       and pn = 1 and d = "\<lparr> width = 600, height = 800 \<rparr>" and newId = "''f_new''"
       and r = "mkRect (2/5) (1/5) (1/200) (1/20)"]
  by (simp add: initialState_def pixelsToPercentage_def normalizeRect_def natToString.simps
      digitChar_def char_of_eq_iff)

section \<open>Apply to all fields of the page\<close>

lemma appliedRect_explicit:
  "appliedRect p sel r =
     r\<lparr> rect_w := (if p = ApplyH then rect_w r else rect_w (field_rect sel)),
        rect_h := (if p = ApplyW then rect_h r else rect_h (field_rect sel)) \<rparr>"
  by (cases p) (simp_all add: appliedRect_def)

lemma foldl_updateField_rects:
  assumes "distinct (map field_id xs)"
    and "\<And>f x. f \<in> set (store_fields s) \<Longrightarrow> x \<in> set xs \<Longrightarrow> field_id f = field_id x \<Longrightarrow> f = x"
  shows "foldl (\<lambda>st field. updateField (field_id field)
                  (noUpdates\<lparr> upd_rect := Some (g (field_rect field)) \<rparr>) st) s xs
         = s\<lparr> store_fields :=
               map (\<lambda>f. if f \<in> set xs then f\<lparr> field_rect := g (field_rect f) \<rparr> else f)
                 (store_fields s) \<rparr>"
  using assms
proof (induction xs arbitrary: s)
  case Nil
  then show ?case by simp
next
  case (Cons x xs)
  let ?s1 = "updateField (field_id x) (noUpdates\<lparr> upd_rect := Some (g (field_rect x)) \<rparr>) s"
  have fields1: "store_fields ?s1 =
      map (\<lambda>f. if field_id f = field_id x then f\<lparr> field_rect := g (field_rect x) \<rparr> else f) (store_fields s)"
    by (simp add: updateField_def applyUpdates_rect_only)
  have d: "distinct (map field_id xs)" and nx: "field_id x \<notin> field_id ` set xs"
    using Cons.prems(1) by simp_all
  have pre: "\<And>f y. f \<in> set (store_fields ?s1) \<Longrightarrow> y \<in> set xs \<Longrightarrow> field_id f = field_id y \<Longrightarrow> f = y"
  proof -
    fix f y
    assume f: "f \<in> set (store_fields ?s1)" and y: "y \<in> set xs" and e: "field_id f = field_id y"
    from f obtain f0 where f0: "f0 \<in> set (store_fields s)"
      and ff: "f = (if field_id f0 = field_id x then f0\<lparr> field_rect := g (field_rect x) \<rparr> else f0)"
      unfolding fields1 by auto
    show "f = y"
    proof (cases "field_id f0 = field_id x")
      case True
      with ff have "field_id f = field_id x" by simp
      with e y nx show ?thesis by force
    next
      case False
      with ff have "f = f0" by simp
      with f0 y e Cons.prems(2) show ?thesis by simp
    qed
  qed
  have step: "map (\<lambda>f. if f \<in> set xs then f\<lparr> field_rect := g (field_rect f) \<rparr> else f) (store_fields ?s1)
      = map (\<lambda>f. if f \<in> set (x # xs) then f\<lparr> field_rect := g (field_rect f) \<rparr> else f) (store_fields s)"
    unfolding fields1 map_map
  proof (rule map_cong [OF refl])
    fix f
    assume f: "f \<in> set (store_fields s)"
    show "((\<lambda>f. if f \<in> set xs then f\<lparr> field_rect := g (field_rect f) \<rparr> else f) \<circ>
           (\<lambda>f. if field_id f = field_id x then f\<lparr> field_rect := g (field_rect x) \<rparr> else f)) f
          = (if f \<in> set (x # xs) then f\<lparr> field_rect := g (field_rect f) \<rparr> else f)"
    proof (cases "field_id f = field_id x")
      case True
      with f Cons.prems(2) have fx: "f = x" by simp
      have "x\<lparr> field_rect := g (field_rect x) \<rparr> \<notin> set xs"
      proof
        assume "x\<lparr> field_rect := g (field_rect x) \<rparr> \<in> set xs"
        then have "field_id (x\<lparr> field_rect := g (field_rect x) \<rparr>) \<in> field_id ` set xs"
          by (rule imageI)
        with nx show False by simp
      qed
      with fx show ?thesis by simp
    next
      case False
      then have "f \<noteq> x" by auto
      with False show ?thesis by simp
    qed
  qed
  have "foldl (\<lambda>st field. updateField (field_id field)
                  (noUpdates\<lparr> upd_rect := Some (g (field_rect field)) \<rparr>) st) s (x # xs)
        = foldl (\<lambda>st field. updateField (field_id field)
                  (noUpdates\<lparr> upd_rect := Some (g (field_rect field)) \<rparr>) st) ?s1 xs"
    by simp
  also have "\<dots> = ?s1\<lparr> store_fields :=
               map (\<lambda>f. if f \<in> set xs then f\<lparr> field_rect := g (field_rect f) \<rparr> else f)
                 (store_fields ?s1) \<rparr>"
    using d pre by (rule Cons.IH)
  also have "\<dots> = s\<lparr> store_fields :=
               map (\<lambda>f. if f \<in> set (x # xs) then f\<lparr> field_rect := g (field_rect f) \<rparr> else f)
                 (store_fields s) \<rparr>"
    unfolding step by (simp add: updateField_def)
  finally show ?case .
qed


lemma handleApplyToAll_fields:
  assumes sel: "selectedField s = Some sel"
    and dist: "distinct (map field_id (store_fields s))"
  shows "handleApplyToAll p s =
     s\<lparr> store_fields :=
         map (\<lambda>f. if page_number f = page_number sel \<and> field_id f \<noteq> field_id sel
                  then f\<lparr> field_rect := appliedRect p sel (field_rect f) \<rparr> else f)
           (store_fields s) \<rparr>"
proof -
  let ?P = "\<lambda>f. page_number f = page_number sel \<and> field_id f \<noteq> field_id sel"
  let ?xs = "filter ?P (store_fields s)"
  have d: "distinct (map field_id ?xs)"
    using dist by (rule distinct_map_filter)
  have inj: "inj_on field_id (set (store_fields s))"
    using dist by (simp add: distinct_map)
  have same: "\<And>f x. f \<in> set (store_fields s) \<Longrightarrow> x \<in> set ?xs \<Longrightarrow> field_id f = field_id x \<Longrightarrow> f = x"
  proof -
    fix f x
    assume "f \<in> set (store_fields s)" and "x \<in> set ?xs" and "field_id f = field_id x"
    moreover from \<open>x \<in> set ?xs\<close> have "x \<in> set (store_fields s)" by simp
    ultimately show "f = x" using inj by (simp add: inj_on_def)
  qed
  have "handleApplyToAll p s =
      foldl (\<lambda>st field. updateField (field_id field)
                (noUpdates\<lparr> upd_rect := Some (appliedRect p sel (field_rect field)) \<rparr>) st) s ?xs"
    by (simp add: handleApplyToAll_def sel)
  also have "\<dots> = s\<lparr> store_fields :=
               map (\<lambda>f. if f \<in> set ?xs then f\<lparr> field_rect := appliedRect p sel (field_rect f) \<rparr> else f)
                 (store_fields s) \<rparr>"
    using d same by (rule foldl_updateField_rects)
  also have "map (\<lambda>f. if f \<in> set ?xs then f\<lparr> field_rect := appliedRect p sel (field_rect f) \<rparr> else f)
                 (store_fields s)
      = map (\<lambda>f. if ?P f then f\<lparr> field_rect := appliedRect p sel (field_rect f) \<rparr> else f)
                 (store_fields s)"
    by (rule map_cong [OF refl]) simp
  finally show ?thesis .
qed

text \<open>
  C9.  With a selected field and unique field ids, \<^verbatim>\<open>handleApplyToAll\<close> changes the
  registry in one way only: every field on the page of the selected field, other than
  the selected field, has \<open>rect.w\<close> replaced by the selected field's for \<open>'w'\<close> and
  \<open>'both'\<close>, and \<open>rect.h\<close> replaced by the selected field's for \<open>'h'\<close> and
  \<open>'both'\<close>.  \<open>rect.x\<close>, \<open>rect.y\<close> and every other property of a recipient, the
  selected field, the fields of other pages, the order of the list and the rest of the
  store are as before.  Nothing is clamped: there is a registry whose rectangles all
  lie within the page and in which a recipient ends with \<open>x + w > 1\<close>.
\<close>

theorem apply_to_all_frame:
  "(selectedField s = Some sel \<and> distinct (map field_id (store_fields s)) \<longrightarrow>
      handleApplyToAll p s =
        s\<lparr> store_fields :=
            map (\<lambda>f. if page_number f = page_number sel \<and> field_id f \<noteq> field_id sel
                     then f\<lparr> field_rect :=
                            (field_rect f)
                              \<lparr> rect_w := (if p = ApplyH then rect_w (field_rect f)
                                           else rect_w (field_rect sel)),
                                rect_h := (if p = ApplyW then rect_h (field_rect f)
                                           else rect_h (field_rect sel)) \<rparr> \<rparr>
                     else f)
              (store_fields s) \<rparr>) \<and>
   (\<exists>s0 p0. selectedField s0 \<noteq> None \<and> distinct (map field_id (store_fields s0)) \<and>
       list_all (\<lambda>f. inPageBounds (field_rect f)) (store_fields s0) \<and>
       list_ex (\<lambda>f. 1 < rect_x (field_rect f) + rect_w (field_rect f))
         (store_fields (handleApplyToAll p0 s0)))"
proof (intro conjI impI)
  assume "selectedField s = Some sel \<and> distinct (map field_id (store_fields s))"
  then show "handleApplyToAll p s =
        s\<lparr> store_fields :=
            map (\<lambda>f. if page_number f = page_number sel \<and> field_id f \<noteq> field_id sel
                     then f\<lparr> field_rect :=
                            (field_rect f)
                              \<lparr> rect_w := (if p = ApplyH then rect_w (field_rect f)
                                           else rect_w (field_rect sel)),
                                rect_h := (if p = ApplyW then rect_h (field_rect f)
                                           else rect_h (field_rect sel)) \<rparr> \<rparr>
                     else f)
              (store_fields s) \<rparr>"
    by (simp add: handleApplyToAll_fields appliedRect_explicit)
next
  let ?s0 = "initialState
        \<lparr> store_fields := [mkField ''a'' ''name'' Text 1 (mkRect (1/10) (1/10) (1/2) (1/10)),
                           mkField ''b'' ''city'' Text 1 (mkRect (4/5) (1/2) (1/10) (1/10))],
          selectedFieldId := Some ''a'' \<rparr>"
  have "selectedField ?s0 \<noteq> None \<and> distinct (map field_id (store_fields ?s0)) \<and>
       list_all (\<lambda>f. inPageBounds (field_rect f)) (store_fields ?s0) \<and>
       list_ex (\<lambda>f. 1 < rect_x (field_rect f) + rect_w (field_rect f))
         (store_fields (handleApplyToAll ApplyW ?s0))"
    by (simp add: selectedField_def initialState_def inPageBounds_def handleApplyToAll_def
        updateField_def applyUpdates_def noUpdates_def appliedRect_def)
  then show "\<exists>s0 p0. selectedField s0 \<noteq> None \<and> distinct (map field_id (store_fields s0)) \<and>
       list_all (\<lambda>f. inPageBounds (field_rect f)) (store_fields s0) \<and>
       list_ex (\<lambda>f. 1 < rect_x (field_rect f) + rect_w (field_rect f))
         (store_fields (handleApplyToAll p0 s0))"
    by blast
qed

theorem apply_to_all_frame_witness:
  "store_fields (handleApplyToAll ApplyW
     (initialState
        \<lparr> store_fields := [mkField ''a'' ''name'' Text 1 (mkRect (1/10) (1/10) (1/2) (1/10)),
                           mkField ''b'' ''city'' Text 1 (mkRect (4/5) (1/2) (1/10) (1/5)),
                           mkField ''c'' ''zip'' Text 2 (mkRect (1/5) (1/2) (1/10) (1/5))],
          selectedFieldId := Some ''a'' \<rparr>))
   = [mkField ''a'' ''name'' Text 1 (mkRect (1/10) (1/10) (1/2) (1/10)),
      mkField ''b'' ''city'' Text 1 (mkRect (4/5) (1/2) (1/2) (1/5)),
      mkField ''c'' ''zip'' Text 2 (mkRect (1/5) (1/2) (1/10) (1/5))]"
  using apply_to_all_frame
    [where s = "initialState
        \<lparr> store_fields := [mkField ''a'' ''name'' Text 1 (mkRect (1/10) (1/10) (1/2) (1/10)),
                           mkField ''b'' ''city'' Text 1 (mkRect (4/5) (1/2) (1/10) (1/5)),
                           mkField ''c'' ''zip'' Text 2 (mkRect (1/5) (1/2) (1/10) (1/5))],
          selectedFieldId := Some ''a'' \<rparr>"
       and sel = "mkField ''a'' ''name'' Text 1 (mkRect (1/10) (1/10) (1/2) (1/10))"
       and p = ApplyW]
  by (simp add: selectedField_def initialState_def)

section \<open>Dragging a field of at least the minimum size\<close>

lemma roundtrip_exact_percent:
  "width d \<noteq> 0 \<Longrightarrow> height d \<noteq> 0 \<Longrightarrow> pixelsToPercentage (percentageToPixels r d) d = r"
  by (simp add: percentageToPixels_def pixelsToPercentage_def)

lemma dragNewRect_pixelRectOK:
  assumes "pixelRectOK r d"
  shows "pixelRectOK (dragNewRect mode r d deltaX deltaY) d"
  using assms by (cases mode) (auto simp: pixelRectOK_def dragNewRect_def clamp_def MIN_SIZE_def Let_def)

lemma pixelRectOK_inPageBounds:
  assumes "pixelRectOK r d" and "0 < width d" and "0 < height d"
  shows "inPageBounds (pixelsToPercentage r d)"
proof -
  from assms have "rect_x r / width d + rect_w r / width d \<le> 1"
    by (simp add: pixelRectOK_def add_divide_distrib [symmetric])
  moreover from assms have "rect_y r / height d + rect_h r / height d \<le> 1"
    by (simp add: pixelRectOK_def add_divide_distrib [symmetric])
  ultimately show ?thesis
    using assms by (simp add: inPageBounds_def pixelsToPercentage_def pixelRectOK_def)
qed

lemma inPageBounds_pixelRectOK:
  assumes "inPageBounds r" and "0 < width d" and "0 < height d"
    and "MIN_SIZE \<le> rect_w r * width d" and "MIN_SIZE \<le> rect_h r * height d"
  shows "pixelRectOK (percentageToPixels r d) d"
proof -
  from assms have "(rect_x r + rect_w r) * width d \<le> 1 * width d"
    by (intro mult_right_mono) (simp_all add: inPageBounds_def)
  moreover from assms have "(rect_y r + rect_h r) * height d \<le> 1 * height d"
    by (intro mult_right_mono) (simp_all add: inPageBounds_def)
  ultimately show ?thesis
    using assms
    by (simp add: pixelRectOK_def percentageToPixels_def inPageBounds_def distrib_right)
qed

lemma find_updateField_rect:
  "find (\<lambda>f. field_id f = i)
     (store_fields (updateField i (noUpdates\<lparr> upd_rect := Some r \<rparr>) s))
   = map_option (\<lambda>f. f\<lparr> field_rect := r \<rparr>) (find (\<lambda>f. field_id f = i) (store_fields s))"
proof -
  have "find (\<lambda>f. field_id f = i) (map (\<lambda>f. if field_id f = i then f\<lparr> field_rect := r \<rparr> else f) fs)
      = map_option (\<lambda>f. f\<lparr> field_rect := r \<rparr>) (find (\<lambda>f. field_id f = i) fs)"
    for fs :: "Field list"
    by (induction fs) simp_all
  then show ?thesis
    unfolding updateField_def applyUpdates_rect_only by simp
qed

lemma find_field_id: "find (\<lambda>f. field_id f = i) fs = Some f \<Longrightarrow> field_id f = i"
  by (induction fs) (auto split: if_splits)

lemma dragInvariant_step:
  assumes inv: "dragInvariant i pn d cs"
  shows "dragInvariant i pn d (rectangleEvent i e cs)"
proof (cases "find (\<lambda>f. field_id f = i) (store_fields (snd cs))")
  case None
  with inv show ?thesis by (simp add: rectangleEvent_def)
next
  case (Some f)
  from inv Some have dims: "pageDimensions (snd cs) pn = Some d"
    and pos: "0 < width d" "0 < height d"
    and pn: "page_number f = pn"
    and cur: "pixelRectOK (percentageToPixels (field_rect f) d) d"
    and ini: "dragMode (fst cs) = DragNone \<or> pixelRectOK (initialRect (fst cs)) d"
    by (simp_all add: dragInvariant_def)
  obtain c s where cs: "cs = (c, s)" by (cases cs)
  show ?thesis
  proof (cases e)
    case (MouseDown mode clientX clientY)
    with Some dims pn cs pos cur ini show ?thesis
      by (simp add: rectangleEvent_def FieldRectangle_handleMouseDown_def dragInvariant_def
          setSelectedFieldId_def)
  next
    case (MouseMove clientX clientY)
    show ?thesis
    proof (cases "dragMode c = DragNone")
      case True
      with MouseMove Some dims pn cs inv show ?thesis
        by (simp add: rectangleEvent_def FieldRectangle_handleMouseMove_def)
    next
      case False
      let ?n = "dragNewRect (dragMode c) (initialRect c) d
                  (clientX - dragStart_x c) (clientY - dragStart_y c)"
      let ?s' = "updateField (field_id f) (noUpdates\<lparr> upd_rect := Some (pixelsToPercentage ?n d) \<rparr>) s"
      from False ini cs have "pixelRectOK (initialRect c) d" by simp
      then have n: "pixelRectOK ?n d" by (rule dragNewRect_pixelRectOK)
      have fid: "field_id f = i" using Some by (rule find_field_id)
      have step: "rectangleEvent i e cs = (c, ?s')"
        using MouseMove Some dims pn cs False
        by (simp add: rectangleEvent_def FieldRectangle_handleMouseMove_def Let_def)
      have found: "find (\<lambda>f. field_id f = i) (store_fields ?s')
          = Some (f\<lparr> field_rect := pixelsToPercentage ?n d \<rparr>)"
        using Some cs unfolding fid by (simp add: find_updateField_rect)
      have same_dims: "pageDimensions ?s' = pageDimensions s"
        by (simp add: updateField_def)
      have rt: "percentageToPixels (pixelsToPercentage ?n d) d = ?n"
        using pos by (simp add: roundtrip_exact)
      show ?thesis
        unfolding step dragInvariant_def
        using found same_dims dims pn cs pos n ini rt by simp
    qed
  next
    case MouseUp
    with Some dims pn cs pos cur show ?thesis
      by (simp add: rectangleEvent_def FieldRectangle_handleMouseUp_def dragInvariant_def)
  qed
qed

lemma dragInvariant_events:
  "dragInvariant i pn d cs \<Longrightarrow> dragInvariant i pn d (rectangleEvents i es cs)"
  unfolding rectangleEvents_def
  by (induction es arbitrary: cs) (simp_all add: dragInvariant_step)

text \<open>
  The page-bounds invariant for fields of at least the minimum pixel size.  A field
  lies within its page, the page has positive dimensions, and the field is at least
  \<^verbatim>\<open>MIN_SIZE\<close> pixels wide and high.  After any sequence of mouse-down, mouse-move
  and mouse-up events on its rectangle, in any of the five drag modes, the field still
  lies within the page and is still at least \<^verbatim>\<open>MIN_SIZE\<close> pixels wide and high.
\<close>

theorem drag_sequence_keeps_page_bounds:
  assumes "find (\<lambda>f. field_id f = i) (store_fields s) = Some f"
    and "pageDimensions s (page_number f) = Some d"
    and "0 < width d" and "0 < height d"
    and "inPageBounds (field_rect f)"
    and "MIN_SIZE \<le> rect_w (field_rect f) * width d"
    and "MIN_SIZE \<le> rect_h (field_rect f) * height d"
    and "dragMode c = DragNone"
    and "find (\<lambda>f. field_id f = i) (store_fields (snd (rectangleEvents i es (c, s)))) = Some f'"
  shows "inPageBounds (field_rect f') \<and>
         MIN_SIZE \<le> rect_w (field_rect f') * width d \<and>
         MIN_SIZE \<le> rect_h (field_rect f') * height d"
proof -
  have "pixelRectOK (percentageToPixels (field_rect f) d) d"
    using assms(5,3,4,6,7) by (rule inPageBounds_pixelRectOK)
  with assms(1-4,8) have "dragInvariant i (page_number f) d (c, s)"
    by (simp add: dragInvariant_def)
  then have "dragInvariant i (page_number f) d (rectangleEvents i es (c, s))"
    by (rule dragInvariant_events)
  with assms(9) have ok: "pixelRectOK (percentageToPixels (field_rect f') d) d"
    by (simp add: dragInvariant_def)
  then have "inPageBounds (pixelsToPercentage (percentageToPixels (field_rect f') d) d)"
    using assms(3,4) by (rule pixelRectOK_inPageBounds)
  with assms(3,4) have "inPageBounds (field_rect f')"
    by (simp add: roundtrip_exact_percent)
  with ok show ?thesis
    by (simp add: pixelRectOK_def percentageToPixels_def)
qed

theorem drag_sequence_keeps_page_bounds_witness:
  "map field_rect (store_fields (snd
     (rectangleEvents ''f1''
        [MouseDown ResizeSW 60 200, MouseMove (-440) 900, MouseUp,
         MouseDown Move 10 170, MouseMove 700 170, MouseUp]
        (initialRectangleState (mkRect 60 160 180 40),
         initialState
           \<lparr> store_fields := [mkField ''f1'' ''field_1'' Text 1 (mkRect (1/10) (1/5) (3/10) (1/20))],
             pageDimensions := [1 \<mapsto> \<lparr> width = 600, height = 800 \<rparr>] \<rparr>))))
   = [mkRect (3/5) (1/5) (2/5) (4/5)] \<and>
   inPageBounds (mkRect (3/5) (1/5) (2/5) (4/5))"
  using drag_sequence_keeps_page_bounds
    [where i = "''f1''"
       and s = "initialState
           \<lparr> store_fields := [mkField ''f1'' ''field_1'' Text 1 (mkRect (1/10) (1/5) (3/10) (1/20))],
             pageDimensions := [1 \<mapsto> \<lparr> width = 600, height = 800 \<rparr>] \<rparr>"
       and f = "mkField ''f1'' ''field_1'' Text 1 (mkRect (1/10) (1/5) (3/10) (1/20))"
       and d = "\<lparr> width = 600, height = 800 \<rparr>"
       and c = "initialRectangleState (mkRect 60 160 180 40)"
       and es = "[MouseDown ResizeSW 60 200, MouseMove (-440) 900, MouseUp,
         MouseDown Move 10 170, MouseMove 700 170, MouseUp]"
       and f' = "mkField ''f1'' ''field_1'' Text 1 (mkRect (3/5) (1/5) (2/5) (4/5))"]
  by (simp add: inPageBounds_def
      rectangleEvents_def rectangleEvent_def initialState_def initialRectangleState_def
      FieldRectangle_handleMouseDown_def FieldRectangle_handleMouseMove_def
      FieldRectangle_handleMouseUp_def setSelectedFieldId_def updateField_def applyUpdates_def
      noUpdates_def percentageToPixels_def pixelsToPercentage_def dragNewRect_def clamp_def
      MIN_SIZE_def)

section \<open>Drag normalization\<close>

text \<open>
  \<^verbatim>\<open>normalizeRect\<close> yields a rectangle of non-negative width and height whose
  corners are the component-wise minimum and maximum of the two points, whatever the
  direction of the drag.
\<close>

theorem normalizeRect_bounding_box:
  "0 \<le> rect_w (normalizeRect sx sy ex ey) \<and> 0 \<le> rect_h (normalizeRect sx sy ex ey) \<and>
   rect_x (normalizeRect sx sy ex ey) = min sx ex \<and>
   rect_y (normalizeRect sx sy ex ey) = min sy ey \<and>
   rect_x (normalizeRect sx sy ex ey) + rect_w (normalizeRect sx sy ex ey) = max sx ex \<and>
   rect_y (normalizeRect sx sy ex ey) + rect_h (normalizeRect sx sy ex ey) = max sy ey"
  by (simp add: normalizeRect_def min_def max_def)

end
